theory Spec2Isabelle
  imports Complex_Main "HOL-Library.Product_Lexorder"
begin

section \<open>Data model (communication/models.py)\<close>

text \<open>
  Primary keys are natural numbers. A many-to-many field is the set of primary keys on
  the other side of its join table (the join table holds a pair at most once, so a set is
  what the relation is). A \<^verbatim>\<open>DateField\<close> is the ordinal of a day, a \<^verbatim>\<open>TimeField\<close> is
  the time elapsed since midnight, and a \<^verbatim>\<open>datetime\<close> is the pair of both, ordered
  as Python orders it: by day first, then by the time of day. \<^verbatim>\<open>datetime.combine(d, t)\<close> is
  the pair \<open>(d, t)\<close> and \<^verbatim>\<open>dt.date()\<close> is its first component. Time zones are not
  modelled: every datetime is taken in one zone.
\<close>

type_synonym date = int
type_synonym time_of_day = nat
type_synonym datetime = "date \<times> time_of_day"

definition combine :: "date \<Rightarrow> time_of_day \<Rightarrow> datetime" where
  "combine d t = (d, t)"

definition date_of :: "datetime \<Rightarrow> date" where
  "date_of dt = fst dt"

text \<open>The rows of \<^verbatim>\<open>django.contrib.auth.models.User\<close> that the code reads.\<close>

record user =
  user_id :: nat
  is_staff :: bool
  user_is_active :: bool

record group =
  group_type :: string
  members :: "nat set"
  owners :: "nat set"

record broadcast =
  priority :: string
  start_date :: datetime
  end_date :: datetime
  audience_type :: string
  target_groups :: "nat set"
  target_users :: "nat set"
  acknowledged_by :: "nat set"
  viewed_by :: "nat set"
  send_email :: bool
  is_published :: bool
  broadcast_is_active :: bool
  broadcast_created_by :: nat

record event =
  event_date :: date
  event_time :: time_of_day
  is_important :: bool
  event_is_active :: bool
  rsvp_yes :: "nat set"
  rsvp_no :: "nat set"
  rsvp_maybe :: "nat set"
  visible_to_groups :: "nat set"
  visible_to_users :: "nat set"
  is_public :: bool
  event_created_by :: nat

text \<open>
  \<^verbatim>\<open>BroadcastView\<close> and \<^verbatim>\<open>EventRSVPLog\<close> rows. A nullable column is an option;
  \<^verbatim>\<open>auto_now_add\<close> columns receive the clock at creation.
\<close>

record broadcast_view =
  view_broadcast :: nat
  view_user :: nat
  viewed_at :: datetime
  ip_address :: "string option"

record event_rsvp_log =
  log_event :: nat
  log_user :: nat
  old_status :: "string option"
  new_status :: string
  changed_at :: datetime

text \<open>
  The database: the user table in primary-key order, the model tables as maps from
  primary key to row, and the two log tables in insertion order.
\<close>

record db =
  users :: "user list"
  groups :: "nat \<rightharpoonup> group"
  broadcasts :: "nat \<rightharpoonup> broadcast"
  events :: "nat \<rightharpoonup> event"
  broadcast_views :: "broadcast_view list"
  event_rsvp_logs :: "event_rsvp_log list"

section \<open>Model properties (communication/models.py)\<close>

text \<open>\<^verbatim>\<open>Broadcast.is_visible\<close>: the chained comparison \<^verbatim>\<open>start_date <= now <= end_date\<close>.\<close>

definition is_visible :: "datetime \<Rightarrow> broadcast \<Rightarrow> bool" where
  "is_visible now b \<longleftrightarrow>
     start_date b \<le> now \<and> now \<le> end_date b \<and> is_published b \<and> broadcast_is_active b"

text \<open>
  \<^verbatim>\<open>gs.filter(members=user).exists()\<close> on a many-to-many field to \<^verbatim>\<open>Group\<close>: some
  related group has the user among its members.
\<close>

definition filter_members_exists :: "db \<Rightarrow> nat set \<Rightarrow> nat \<Rightarrow> bool" where
  "filter_members_exists d gids uid \<longleftrightarrow>
     (\<exists>gid\<in>gids. case groups d gid of None \<Rightarrow> False | Some g \<Rightarrow> uid \<in> members g)"

text \<open>\<^verbatim>\<open>Event.is_upcoming\<close>, \<^verbatim>\<open>Event.get_user_rsvp_status\<close>, \<^verbatim>\<open>Event.user_can_view\<close>.\<close>

definition is_upcoming :: "datetime \<Rightarrow> event \<Rightarrow> bool" where
  "is_upcoming now e \<longleftrightarrow> combine (event_date e) (event_time e) > now"

definition get_user_rsvp_status :: "event \<Rightarrow> user \<Rightarrow> string option" where
  "get_user_rsvp_status e u =
     (if user_id u \<in> rsvp_yes e then Some ''yes''
      else if user_id u \<in> rsvp_no e then Some ''no''
      else if user_id u \<in> rsvp_maybe e then Some ''maybe''
      else None)"

definition user_can_view :: "db \<Rightarrow> event \<Rightarrow> user \<Rightarrow> bool" where
  "user_can_view d e u =
     (if is_public e then True
      else if event_created_by e = user_id u then True
      else if user_id u \<in> visible_to_users e then True
      else if filter_members_exists d (visible_to_groups e) (user_id u) then True
      else False)"

section \<open>Permission classes (communication/permissions.py)\<close>

text \<open>\<^verbatim>\<open>IsBroadcastOwnerOrAdmin.can_view_broadcast\<close>.\<close>

definition can_view_broadcast :: "db \<Rightarrow> datetime \<Rightarrow> user \<Rightarrow> broadcast \<Rightarrow> bool" where
  "can_view_broadcast d now u b =
     (if \<not> is_visible now b then False
      else if audience_type b = ''all'' then True
      else if audience_type b = ''groups'' then
        filter_members_exists d (target_groups b) (user_id u)
      else if audience_type b = ''users'' then user_id u \<in> target_users b
      else False)"

text \<open>
  The HTTP methods, and the object-level checks of the permission classes. Each class's
  \<^verbatim>\<open>has_permission\<close> is \<^verbatim>\<open>request.user.is_authenticated\<close> (for the methods the
  actions below use), so the object-level checks are only reached with a user row.
\<close>

datatype http_method = GET | HEAD | OPTIONS | POST | PUT | PATCH | DELETE

definition safe_method :: "http_method \<Rightarrow> bool" where
  "safe_method m \<longleftrightarrow> m = GET \<or> m = HEAD \<or> m = OPTIONS"

definition IsAdminOrReadOnly_has_object_permission :: "http_method \<Rightarrow> user \<Rightarrow> bool" where
  "IsAdminOrReadOnly_has_object_permission m u = (if safe_method m then True else is_staff u)"

definition IsBroadcastOwnerOrAdmin_has_object_permission ::
  "db \<Rightarrow> datetime \<Rightarrow> http_method \<Rightarrow> user \<Rightarrow> broadcast \<Rightarrow> bool" where
  "IsBroadcastOwnerOrAdmin_has_object_permission d now m u b =
     (if safe_method m then can_view_broadcast d now u b
      else is_staff u \<or> broadcast_created_by b = user_id u)"

definition IsEventOwnerOrAdmin_has_object_permission ::
  "db \<Rightarrow> http_method \<Rightarrow> user \<Rightarrow> event \<Rightarrow> bool" where
  "IsEventOwnerOrAdmin_has_object_permission d m u e =
     (if safe_method m then user_can_view d e u
      else is_staff u \<or> event_created_by e = user_id u)"

definition CanRSVPToEvent_has_object_permission ::
  "db \<Rightarrow> datetime \<Rightarrow> user \<Rightarrow> event \<Rightarrow> bool" where
  "CanRSVPToEvent_has_object_permission d now u e \<longleftrightarrow> user_can_view d e u \<and> is_upcoming now e"


section \<open>Signal handlers (communication/signals.py)\<close>

text \<open>
  \<^verbatim>\<open>CommunicationConfig.ready\<close> imports the signals module, which connects the handlers
  below to the \<^verbatim>\<open>m2m_changed\<close> signal of the join tables. Django sends that signal
  from \<^verbatim>\<open>add\<close> and \<^verbatim>\<open>remove\<close> of a many-to-many field; for \<^verbatim>\<open>post_add\<close> its
  \<^verbatim>\<open>pk_set\<close> holds the keys that were really inserted (those not related before).
  \<^verbatim>\<open>pk_set\<close> is the list of its elements in the order the loop visits them.
\<close>

definition EventRSVPLog_create ::
  "datetime \<Rightarrow> nat \<Rightarrow> nat \<Rightarrow> string option \<Rightarrow> string \<Rightarrow> db \<Rightarrow> db" where
  "EventRSVPLog_create now eid uid old new d =
     d\<lparr>event_rsvp_logs := event_rsvp_logs d @
        [\<lparr>log_event = eid, log_user = uid, old_status = old, new_status = new,
          changed_at = now\<rparr>]\<rparr>"

text \<open>\<^verbatim>\<open>User.objects.get(id=user_id)\<close> finds a row (it raises \<^verbatim>\<open>DoesNotExist\<close> otherwise).\<close>

definition user_exists :: "db \<Rightarrow> nat \<Rightarrow> bool" where
  "user_exists d uid \<longleftrightarrow> (\<exists>u\<in>set (users d). user_id u = uid)"

definition rsvp_changed ::
  "string \<Rightarrow> datetime \<Rightarrow> nat \<Rightarrow> string \<Rightarrow> nat list \<Rightarrow> db \<Rightarrow> db" where
  "rsvp_changed status now eid action pk_set d =
     (if action = ''post_add'' \<and> pk_set \<noteq> [] then
        fold (\<lambda>uid d'. if user_exists d' uid
                         then EventRSVPLog_create now eid uid None status d' else d')
          pk_set d
      else d)"

definition event_rsvp_yes_changed :: "datetime \<Rightarrow> nat \<Rightarrow> string \<Rightarrow> nat list \<Rightarrow> db \<Rightarrow> db" where
  "event_rsvp_yes_changed = rsvp_changed ''yes''"

definition event_rsvp_no_changed :: "datetime \<Rightarrow> nat \<Rightarrow> string \<Rightarrow> nat list \<Rightarrow> db \<Rightarrow> db" where
  "event_rsvp_no_changed = rsvp_changed ''no''"

definition event_rsvp_maybe_changed :: "datetime \<Rightarrow> nat \<Rightarrow> string \<Rightarrow> nat list \<Rightarrow> db \<Rightarrow> db" where
  "event_rsvp_maybe_changed = rsvp_changed ''maybe''"


section \<open>Many-to-many managers\<close>

text \<open>
  \<^verbatim>\<open>field.add(user)\<close> and \<^verbatim>\<open>field.remove(user)\<close> on the row with key \<open>pk\<close>: the
  join table changes and the connected handler runs.
\<close>

definition update_event :: "nat \<Rightarrow> (event \<Rightarrow> event) \<Rightarrow> db \<Rightarrow> db" where
  "update_event pk f d =
     (case events d pk of None \<Rightarrow> d | Some e \<Rightarrow> d\<lparr>events := (events d)(pk \<mapsto> f e)\<rparr>)"

definition update_broadcast :: "nat \<Rightarrow> (broadcast \<Rightarrow> broadcast) \<Rightarrow> db \<Rightarrow> db" where
  "update_broadcast pk f d =
     (case broadcasts d pk of None \<Rightarrow> d
      | Some b \<Rightarrow> d\<lparr>broadcasts := (broadcasts d)(pk \<mapsto> f b)\<rparr>)"

definition added_keys :: "nat set \<Rightarrow> nat \<Rightarrow> nat list" where
  "added_keys related uid = (if uid \<in> related then [] else [uid])"

definition removed_keys :: "nat set \<Rightarrow> nat \<Rightarrow> nat list" where
  "removed_keys related uid = (if uid \<in> related then [uid] else [])"

definition related :: "(event \<Rightarrow> nat set) \<Rightarrow> nat \<Rightarrow> db \<Rightarrow> nat set" where
  "related field pk d = (case events d pk of None \<Rightarrow> {} | Some e \<Rightarrow> field e)"

definition rsvp_yes_add :: "datetime \<Rightarrow> nat \<Rightarrow> nat \<Rightarrow> db \<Rightarrow> db" where
  "rsvp_yes_add now pk uid d =
     event_rsvp_yes_changed now pk ''post_add'' (added_keys (related rsvp_yes pk d) uid)
       (update_event pk (\<lambda>e. e\<lparr>rsvp_yes := insert uid (rsvp_yes e)\<rparr>) d)"

definition rsvp_no_add :: "datetime \<Rightarrow> nat \<Rightarrow> nat \<Rightarrow> db \<Rightarrow> db" where
  "rsvp_no_add now pk uid d =
     event_rsvp_no_changed now pk ''post_add'' (added_keys (related rsvp_no pk d) uid)
       (update_event pk (\<lambda>e. e\<lparr>rsvp_no := insert uid (rsvp_no e)\<rparr>) d)"

definition rsvp_maybe_add :: "datetime \<Rightarrow> nat \<Rightarrow> nat \<Rightarrow> db \<Rightarrow> db" where
  "rsvp_maybe_add now pk uid d =
     event_rsvp_maybe_changed now pk ''post_add'' (added_keys (related rsvp_maybe pk d) uid)
       (update_event pk (\<lambda>e. e\<lparr>rsvp_maybe := insert uid (rsvp_maybe e)\<rparr>) d)"

definition rsvp_yes_remove :: "datetime \<Rightarrow> nat \<Rightarrow> nat \<Rightarrow> db \<Rightarrow> db" where
  "rsvp_yes_remove now pk uid d =
     event_rsvp_yes_changed now pk ''post_remove'' (removed_keys (related rsvp_yes pk d) uid)
       (update_event pk (\<lambda>e. e\<lparr>rsvp_yes := rsvp_yes e - {uid}\<rparr>) d)"

definition rsvp_no_remove :: "datetime \<Rightarrow> nat \<Rightarrow> nat \<Rightarrow> db \<Rightarrow> db" where
  "rsvp_no_remove now pk uid d =
     event_rsvp_no_changed now pk ''post_remove'' (removed_keys (related rsvp_no pk d) uid)
       (update_event pk (\<lambda>e. e\<lparr>rsvp_no := rsvp_no e - {uid}\<rparr>) d)"

definition rsvp_maybe_remove :: "datetime \<Rightarrow> nat \<Rightarrow> nat \<Rightarrow> db \<Rightarrow> db" where
  "rsvp_maybe_remove now pk uid d =
     event_rsvp_maybe_changed now pk ''post_remove''
       (removed_keys (related rsvp_maybe pk d) uid)
       (update_event pk (\<lambda>e. e\<lparr>rsvp_maybe := rsvp_maybe e - {uid}\<rparr>) d)"

definition related_b :: "(broadcast \<Rightarrow> nat set) \<Rightarrow> nat \<Rightarrow> db \<Rightarrow> nat set" where
  "related_b field pk d = (case broadcasts d pk of None \<Rightarrow> {} | Some b \<Rightarrow> field b)"



text \<open>No handler is connected to the join table of \<^verbatim>\<open>viewed_by\<close>.\<close>

definition viewed_by_add :: "nat \<Rightarrow> nat \<Rightarrow> db \<Rightarrow> db" where
  "viewed_by_add pk uid d =
     update_broadcast pk (\<lambda>b. b\<lparr>viewed_by := insert uid (viewed_by b)\<rparr>) d"

section \<open>Serializers (communication/serializers.py)\<close>

text \<open>
  \<^verbatim>\<open>RSVPSerializer\<close> has one field, a choice among \<^verbatim>\<open>yes\<close>, \<^verbatim>\<open>no\<close> and
  \<^verbatim>\<open>maybe\<close>; \<^verbatim>\<open>BroadcastAcknowledgeSerializer\<close> has one boolean field. The request
  data is the submitted value of that field (\<open>None\<close> when it is missing or, for the
  boolean, not a boolean); the result is the validated value, or \<open>None\<close> when
  \<^verbatim>\<open>is_valid()\<close> is false.
\<close>

definition RSVPSerializer :: "string option \<Rightarrow> string option" where
  "RSVPSerializer data =
     (case data of None \<Rightarrow> None
      | Some s \<Rightarrow> if s \<in> set [''yes'', ''no'', ''maybe''] then Some s else None)"


section \<open>Views (communication/views.py)\<close>

text \<open>
  A request carries the authenticated user (\<open>None\<close> for an anonymous one) and the two
  headers \<^verbatim>\<open>get_client_ip\<close> reads. A response is its status code. The framework runs a
  detail action in this order: \<^verbatim>\<open>has_permission\<close> of the action's permission classes
  (401 when it fails for an anonymous user), then in \<^verbatim>\<open>get_object\<close> the lookup of the
  primary key in \<^verbatim>\<open>get_queryset()\<close> (404 when absent) and \<^verbatim>\<open>has_object_permission\<close>
  (403 when it fails), then the body of the action. The request has no query
  parameters, so the filter backends leave the queryset as it is. The clock
  \<^verbatim>\<open>timezone.now()\<close> is the parameter \<open>now\<close>, read once per request.
\<close>

record request =
  req_user :: "user option"
  HTTP_X_FORWARDED_FOR :: "string option"
  REMOTE_ADDR :: "string option"

datatype response =
    HTTP_200_OK
  | HTTP_400_BAD_REQUEST
  | HTTP_401_UNAUTHORIZED
  | HTTP_403_FORBIDDEN
  | HTTP_404_NOT_FOUND

text \<open>\<^verbatim>\<open>BroadcastViewSet.get_queryset\<close> and \<^verbatim>\<open>EventViewSet.get_queryset\<close>, as the
  test whether a row belongs to the queryset.\<close>

definition BroadcastViewSet_get_queryset :: "db \<Rightarrow> user \<Rightarrow> broadcast \<Rightarrow> bool" where
  "BroadcastViewSet_get_queryset d u b =
     (if is_staff u then broadcast_is_active b
      else broadcast_is_active b \<and>
        (audience_type b = ''all'' \<or>
         (audience_type b = ''groups'' \<and> filter_members_exists d (target_groups b) (user_id u)) \<or>
         (audience_type b = ''users'' \<and> user_id u \<in> target_users b) \<or>
         broadcast_created_by b = user_id u))"

definition EventViewSet_get_queryset :: "db \<Rightarrow> user \<Rightarrow> event \<Rightarrow> bool" where
  "EventViewSet_get_queryset d u e =
     (if is_staff u then event_is_active e
      else event_is_active e \<and>
        (is_public e \<or>
         user_id u \<in> visible_to_users e \<or>
         filter_members_exists d (visible_to_groups e) (user_id u) \<or>
         event_created_by e = user_id u))"

definition get_broadcast_or_404 :: "db \<Rightarrow> user \<Rightarrow> nat \<Rightarrow> broadcast option" where
  "get_broadcast_or_404 d u pk =
     (case broadcasts d pk of None \<Rightarrow> None
      | Some b \<Rightarrow> if BroadcastViewSet_get_queryset d u b then Some b else None)"

definition get_event_or_404 :: "db \<Rightarrow> user \<Rightarrow> nat \<Rightarrow> event option" where
  "get_event_or_404 d u pk =
     (case events d pk of None \<Rightarrow> None
      | Some e \<Rightarrow> if EventViewSet_get_queryset d u e then Some e else None)"

text \<open>\<^verbatim>\<open>BroadcastViewSet.get_client_ip\<close>: an empty header is false in Python.\<close>

definition get_client_ip :: "request \<Rightarrow> string option" where
  "get_client_ip req =
     (case HTTP_X_FORWARDED_FOR req of
        Some x \<Rightarrow> if x \<noteq> [] then Some (takeWhile (\<lambda>c. c \<noteq> CHR '','') x) else REMOTE_ADDR req
      | None \<Rightarrow> REMOTE_ADDR req)"


text \<open>
  \<^verbatim>\<open>BroadcastView.objects.get_or_create(broadcast=..., user=..., defaults=...)\<close>. The
  table is \<^verbatim>\<open>unique_together\<close> on the pair, so the lookup finds one row or none.
\<close>

definition BroadcastView_get_or_create ::
  "datetime \<Rightarrow> nat \<Rightarrow> nat \<Rightarrow> string option \<Rightarrow> db \<Rightarrow> db" where
  "BroadcastView_get_or_create now pk uid ip d =
     (if \<exists>v\<in>set (broadcast_views d). view_broadcast v = pk \<and> view_user v = uid then d
      else d\<lparr>broadcast_views := broadcast_views d @
             [\<lparr>view_broadcast = pk, view_user = uid, viewed_at = now, ip_address = ip\<rparr>]\<rparr>)"

text \<open>
  \<^verbatim>\<open>BroadcastViewSet.mark_viewed\<close> (POST). The action names no permission classes, so
  the viewset's \<^verbatim>\<open>IsBroadcastOwnerOrAdmin\<close> applies, with the method POST.
\<close>

definition mark_viewed :: "datetime \<Rightarrow> request \<Rightarrow> nat \<Rightarrow> db \<Rightarrow> response \<times> db" where
  "mark_viewed now req pk d =
     (case req_user req of
        None \<Rightarrow> (HTTP_401_UNAUTHORIZED, d)
      | Some u \<Rightarrow>
          (case get_broadcast_or_404 d u pk of
             None \<Rightarrow> (HTTP_404_NOT_FOUND, d)
           | Some b \<Rightarrow>
               if \<not> IsBroadcastOwnerOrAdmin_has_object_permission d now POST u b
               then (HTTP_403_FORBIDDEN, d)
               else if user_id u \<notin> viewed_by b
               then (HTTP_200_OK,
                     BroadcastView_get_or_create now pk (user_id u) (get_client_ip req)
                       (viewed_by_add pk (user_id u) d))
               else (HTTP_200_OK, d)))"

text \<open>\<^verbatim>\<open>EventViewSet.rsvp\<close> (POST, permission \<^verbatim>\<open>CanRSVPToEvent\<close>).\<close>

definition rsvp ::
  "datetime \<Rightarrow> request \<Rightarrow> nat \<Rightarrow> string option \<Rightarrow> db \<Rightarrow> response \<times> db" where
  "rsvp now req pk data d =
     (case req_user req of
        None \<Rightarrow> (HTTP_401_UNAUTHORIZED, d)
      | Some u \<Rightarrow>
          (case get_event_or_404 d u pk of
             None \<Rightarrow> (HTTP_404_NOT_FOUND, d)
           | Some e \<Rightarrow>
               if \<not> CanRSVPToEvent_has_object_permission d now u e
               then (HTTP_403_FORBIDDEN, d)
               else
                 (case RSVPSerializer data of
                    None \<Rightarrow> (HTTP_400_BAD_REQUEST, d)
                  | Some status \<Rightarrow>
                      let old = get_user_rsvp_status e u;
                          d1 = rsvp_yes_remove now pk (user_id u) d;
                          d2 = rsvp_no_remove now pk (user_id u) d1;
                          d3 = rsvp_maybe_remove now pk (user_id u) d2;
                          d4 = (if status = ''yes'' then rsvp_yes_add now pk (user_id u) d3
                                else if status = ''no'' then rsvp_no_add now pk (user_id u) d3
                                else if status = ''maybe''
                                then rsvp_maybe_add now pk (user_id u) d3
                                else d3)
                      in (HTTP_200_OK,
                          EventRSVPLog_create now pk (user_id u) old status d4))))"

section \<open>Python floats\<close>

text \<open>
  A finite Python \<^verbatim>\<open>float\<close> is an IEEE 754 binary64 number, taken here as the real
  number it denotes. \<open>binary64 x\<close> is the float nearest to the real \<open>x\<close>: when the
  magnitude of \<open>x\<close> lies between two consecutive powers of two, from \<^verbatim>\<open>2^e\<close> up to
  but not including \<^verbatim>\<open>2^(e+1)\<close>, the floats of that magnitude are the multiples of
  \<^verbatim>\<open>2^(e-52)\<close> (53 significant bits), and \<open>x\<close> goes to the nearest multiple, to the
  one with an even significand when two are equally near. The exponent range is not
  modelled (no overflow, no subnormal numbers): the function agrees with binary64
  rounding for magnitudes from \<^verbatim>\<open>2^(-1022)\<close> up to the largest float, which
  covers every quotient of two row counts below \<^verbatim>\<open>2^1022\<close>.
\<close>

definition round_half_even :: "real \<Rightarrow> int" where
  "round_half_even q =
     (let f = \<lfloor>q\<rfloor>
      in if q - of_int f < 1 / 2 then f
         else if q - of_int f > 1 / 2 then f + 1
         else if even f then f else f + 1)"

definition binary64 :: "real \<Rightarrow> real" where
  "binary64 x =
     (if x = 0 then 0
      else let e = \<lfloor>log 2 \<bar>x\<bar>\<rfloor>;
               ulp = 2 powr (of_int e - 52)
           in sgn x * of_int (round_half_even (\<bar>x\<bar> / ulp)) * ulp)"

text \<open>
  Python's \<^verbatim>\<open>a / b\<close> on two integers is the exact quotient, rounded once (it raises
  \<^verbatim>\<open>ZeroDivisionError\<close> for \<open>b = 0\<close>; both uses below test the divisor first).
  \<^verbatim>\<open>x * 100\<close> on a float converts 100 to the float 100.0, which is exact, and rounds
  the exact product.
\<close>

definition int_truediv :: "nat \<Rightarrow> nat \<Rightarrow> real" where
  "int_truediv a b = binary64 (real a / real b)"

definition float_mul :: "real \<Rightarrow> real \<Rightarrow> real" where
  "float_mul x y = binary64 (x * y)"

section \<open>Analytics (communication/models.py, communication/views.py)\<close>

text \<open>
  \<^verbatim>\<open>Broadcast.total_recipients\<close> and \<^verbatim>\<open>Broadcast.acknowledgment_rate\<close>. The user table
  holds every user once, so \<^verbatim>\<open>distinct().count()\<close> is the length of the filtered
  table. The rate is \<^verbatim>\<open>(self.acknowledged_by.count() / total) * 100\<close>: an integer
  division to a float, then a float multiplication.
\<close>

definition total_recipients :: "db \<Rightarrow> broadcast \<Rightarrow> nat" where
  "total_recipients d b =
     (if audience_type b = ''all'' then length (filter user_is_active (users d))
      else if audience_type b = ''groups'' then
        length (filter (\<lambda>u. filter_members_exists d (target_groups b) (user_id u)) (users d))
      else card (target_users b))"

definition acknowledgment_rate :: "db \<Rightarrow> broadcast \<Rightarrow> real" where
  "acknowledgment_rate d b =
     (let total = total_recipients d b
      in if total = 0 then 0
         else float_mul (int_truediv (card (acknowledged_by b)) total) 100)"

text \<open>
  The loop of \<^verbatim>\<open>BroadcastViewSet.analytics\<close>:
  \<^verbatim>\<open>while current_date <= end_date: ...; current_date += timedelta(days=1)\<close>.
  An entry of \<^verbatim>\<open>daily_views\<close> is the day (rendered by \<^verbatim>\<open>isoformat\<close> in the source)
  and the count.
\<close>

record daily_entry =
  entry_date :: date
  entry_count :: nat

definition views_count :: "db \<Rightarrow> nat \<Rightarrow> date \<Rightarrow> nat" where
  "views_count d pk current_date =
     length (filter (\<lambda>v. view_broadcast v = pk \<and> date_of (viewed_at v) = current_date)
               (broadcast_views d))"

function daily_views_loop ::
  "db \<Rightarrow> nat \<Rightarrow> date \<Rightarrow> date \<Rightarrow> daily_entry list \<Rightarrow> daily_entry list" where
  "daily_views_loop d pk current_date end_day daily_views =
     (if current_date \<le> end_day then
        daily_views_loop d pk (current_date + 1) end_day
          (daily_views @
             [\<lparr>entry_date = current_date, entry_count = views_count d pk current_date\<rparr>])
      else daily_views)"
  by pat_completeness auto
termination
  by (relation "measure (\<lambda>(d, pk, current_date, end_day, daily_views).
                           nat (end_day + 1 - current_date))") auto

declare daily_views_loop.simps [simp del]

record analytics_data =
  data_total_recipients :: nat
  data_total_views :: nat
  data_total_acknowledgments :: nat
  data_acknowledgment_rate :: real
  data_view_rate :: real
  data_daily_views :: "daily_entry list"
  data_daily_acknowledgments :: "daily_entry list"

text \<open>\<^verbatim>\<open>BroadcastViewSet.analytics\<close> (GET, permission \<^verbatim>\<open>IsAdminOrReadOnly\<close>).\<close>

definition analytics ::
  "datetime \<Rightarrow> request \<Rightarrow> nat \<Rightarrow> db \<Rightarrow> response \<times> analytics_data option" where
  "analytics now req pk d =
     (case req_user req of
        None \<Rightarrow> (HTTP_401_UNAUTHORIZED, None)
      | Some u \<Rightarrow>
          (case get_broadcast_or_404 d u pk of
             None \<Rightarrow> (HTTP_404_NOT_FOUND, None)
           | Some b \<Rightarrow>
               if \<not> IsAdminOrReadOnly_has_object_permission GET u
               then (HTTP_403_FORBIDDEN, None)
               else
                 let end_day = date_of now;
                     start_day = end_day - 30
                 in (HTTP_200_OK,
                     Some \<lparr>data_total_recipients = total_recipients d b,
                           data_total_views = card (viewed_by b),
                           data_total_acknowledgments = card (acknowledged_by b),
                           data_acknowledgment_rate = acknowledgment_rate d b,
                           data_view_rate =
                             (if total_recipients d b > 0
                              then float_mul
                                     (int_truediv (card (viewed_by b)) (total_recipients d b))
                                     100
                              else 0),
                           data_daily_views = daily_views_loop d pk start_day end_day [],
                           data_daily_acknowledgments = []\<rparr>)))"

section \<open>Notions used in the statements\<close>

text \<open>A row of \<^verbatim>\<open>EventRSVPLog\<close>, by its columns.\<close>

definition rsvp_row :: "datetime \<Rightarrow> nat \<Rightarrow> string option \<Rightarrow> string \<Rightarrow> nat \<Rightarrow> event_rsvp_log" where
  "rsvp_row now eid old new uid =
     \<lparr>log_event = eid, log_user = uid, old_status = old, new_status = new, changed_at = now\<rparr>"

text \<open>
  The net effect of the body of \<^verbatim>\<open>rsvp\<close> on the event row: the user leaves the three
  sets, then joins the one named by the status.
\<close>

definition set_rsvp :: "nat \<Rightarrow> string \<Rightarrow> event \<Rightarrow> event" where
  "set_rsvp uid s e =
     (let e3 = e\<lparr>rsvp_yes := rsvp_yes e - {uid}, rsvp_no := rsvp_no e - {uid},
                 rsvp_maybe := rsvp_maybe e - {uid}\<rparr>
      in if s = ''yes'' then e3\<lparr>rsvp_yes := insert uid (rsvp_yes e3)\<rparr>
         else if s = ''no'' then e3\<lparr>rsvp_no := insert uid (rsvp_no e3)\<rparr>
         else if s = ''maybe'' then e3\<lparr>rsvp_maybe := insert uid (rsvp_maybe e3)\<rparr>
         else e3)"

text \<open>
  Mutual exclusion of the three RSVP sets of an event: no user is in two of them.
\<close>

definition rsvp_exclusive :: "event \<Rightarrow> bool" where
  "rsvp_exclusive e \<longleftrightarrow>
     rsvp_yes e \<inter> rsvp_no e = {} \<and> rsvp_yes e \<inter> rsvp_maybe e = {} \<and>
     rsvp_no e \<inter> rsvp_maybe e = {}"

text \<open>
  A finite sequence of RSVP requests, each run to completion on the state the previous
  one left. A call is the clock, the request, the primary key in the URL and the data.
\<close>

type_synonym rsvp_call = "datetime \<times> request \<times> nat \<times> string option"

fun rsvp_sequence :: "rsvp_call list \<Rightarrow> db \<Rightarrow> db" where
  "rsvp_sequence [] d = d"
| "rsvp_sequence ((now, req, pk, data) # calls) d =
     rsvp_sequence calls (snd (rsvp now req pk data d))"

text \<open>The \<^verbatim>\<open>BroadcastView\<close> rows of one broadcast and one user.\<close>

definition view_rows :: "db \<Rightarrow> nat \<Rightarrow> nat \<Rightarrow> broadcast_view list" where
  "view_rows d pk uid =
     filter (\<lambda>v. view_broadcast v = pk \<and> view_user v = uid) (broadcast_views d)"

text \<open>
  The view log agrees with the viewed set for one broadcast and one user: the table has
  at most one row for the pair (\<^verbatim>\<open>unique_together\<close>), and a user in the viewed set
  has a row. Both hold when neither a row nor a membership exists.
\<close>

definition view_log_consistent :: "db \<Rightarrow> nat \<Rightarrow> nat \<Rightarrow> bool" where
  "view_log_consistent d pk uid \<longleftrightarrow>
     length (view_rows d pk uid) \<le> 1 \<and>
     (uid \<notin> related_b viewed_by pk d \<or> view_rows d pk uid \<noteq> [])"

text \<open>Repeated \<^verbatim>\<open>mark_viewed\<close> requests of one user for one broadcast, at the given times.\<close>

fun mark_viewed_repeat :: "datetime list \<Rightarrow> request \<Rightarrow> nat \<Rightarrow> db \<Rightarrow> db" where
  "mark_viewed_repeat [] req pk d = d"
| "mark_viewed_repeat (now # nows) req pk d =
     mark_viewed_repeat nows req pk (snd (mark_viewed now req pk d))"


section \<open>The wording of the specification, where it differs from the code\<close>

text \<open>
  Broadcast visibility as the specification words it: a half-open window, and the three
  ways of being targeted taken whatever the audience type.
\<close>

definition claimed_can_view :: "db \<Rightarrow> datetime \<Rightarrow> user \<Rightarrow> broadcast \<Rightarrow> bool" where
  "claimed_can_view d now u b \<longleftrightarrow>
     (start_date b \<le> now \<and> now < end_date b \<and> is_published b \<and> broadcast_is_active b) \<and>
     (audience_type b = ''all'' \<or> filter_members_exists d (target_groups b) (user_id u) \<or>
      user_id u \<in> target_users b)"

text \<open>
  The acknowledgment rate as the specification words it, clamped to the interval from 0
  to 100.
\<close>

definition claimed_acknowledgment_rate :: "db \<Rightarrow> broadcast \<Rightarrow> real" where
  "claimed_acknowledgment_rate d b =
     (if total_recipients d b = 0 then 0
      else max 0 (min 100
             (100 * of_nat (card (acknowledged_by b)) / of_nat (total_recipients d b))))"

section \<open>Concrete users, rows and databases\<close>

text \<open>
  Five ordinary users, of whom the last two are deactivated, and an administrator. A
  request of a user carries no forwarding header.
\<close>

definition carol :: user where
  "carol = \<lparr>user_id = 1, is_staff = False, user_is_active = True\<rparr>"

definition alice :: user where
  "alice = \<lparr>user_id = 2, is_staff = False, user_is_active = True\<rparr>"

definition bob :: user where
  "bob = \<lparr>user_id = 3, is_staff = False, user_is_active = True\<rparr>"

definition dave :: user where
  "dave = \<lparr>user_id = 5, is_staff = False, user_is_active = False\<rparr>"

definition erin :: user where
  "erin = \<lparr>user_id = 6, is_staff = False, user_is_active = False\<rparr>"

definition admin :: user where
  "admin = \<lparr>user_id = 9, is_staff = True, user_is_active = True\<rparr>"

definition as_user :: "user \<Rightarrow> request" where
  "as_user u = \<lparr>req_user = Some u, HTTP_X_FORWARDED_FOR = None, REMOTE_ADDR = Some ''10.0.0.7''\<rparr>"

text \<open>
  A public event on day 20, new, and a private event that started on day 5, shown to
  nobody but its creator, user 1; each in a database of its own.
\<close>

definition party :: event where
  "party = \<lparr>event_date = 20, event_time = 0, is_important = False, event_is_active = True,
     rsvp_yes = {}, rsvp_no = {}, rsvp_maybe = {}, visible_to_groups = {},
     visible_to_users = {}, is_public = True, event_created_by = 1\<rparr>"

definition party_db :: db where
  "party_db = \<lparr>users = [carol, alice, bob], groups = Map.empty, broadcasts = Map.empty,
     events = [7 \<mapsto> party], broadcast_views = [], event_rsvp_logs = []\<rparr>"

definition closed_door :: event where
  "closed_door = \<lparr>event_date = 5, event_time = 0, is_important = False,
     event_is_active = True, rsvp_yes = {}, rsvp_no = {}, rsvp_maybe = {},
     visible_to_groups = {}, visible_to_users = {}, is_public = False, event_created_by = 1\<rparr>"

definition closed_door_db :: db where
  "closed_door_db = \<lparr>users = [carol, alice, bob], groups = Map.empty, broadcasts = Map.empty,
     events = [7 \<mapsto> closed_door], broadcast_views = [], event_rsvp_logs = []\<rparr>"

text \<open>
  A published broadcast to one named user, bob, created by carol, and the same broadcast
  to three named users, two of whom have acknowledged it. Its database; that database
  after carol and the administrator have marked the broadcast as viewed on day 11; and
  that database after carol has been put into \<^verbatim>\<open>viewed_by\<close> on the admin site, which
  edits the set and cannot add a \<^verbatim>\<open>BroadcastView\<close> row.
\<close>

definition memo :: broadcast where
  "memo = \<lparr>priority = ''normal'', start_date = (10, 0), end_date = (12, 0),
     audience_type = ''users'', target_groups = {}, target_users = {3}, acknowledged_by = {},
     viewed_by = {}, send_email = False, is_published = True, broadcast_is_active = True,
     broadcast_created_by = 1\<rparr>"

definition circular :: broadcast where
  "circular = memo\<lparr>target_users := {1, 2, 3}, acknowledged_by := {2, 3}\<rparr>"

definition memo_db :: db where
  "memo_db = \<lparr>users = [carol, alice, bob, admin], groups = Map.empty,
     broadcasts = [4 \<mapsto> memo], events = Map.empty, broadcast_views = [],
     event_rsvp_logs = []\<rparr>"

definition viewed_db :: db where
  "viewed_db = memo_db\<lparr>broadcasts := [4 \<mapsto> memo\<lparr>viewed_by := {1, 9}\<rparr>],
     broadcast_views :=
       [\<lparr>view_broadcast = 4, view_user = 1, viewed_at = (11, 0),
         ip_address = Some ''10.0.0.7''\<rparr>,
        \<lparr>view_broadcast = 4, view_user = 9, viewed_at = (11, 7),
         ip_address = Some ''10.0.0.7''\<rparr>]\<rparr>"

definition preset_db :: db where
  "preset_db = memo_db\<lparr>broadcasts := [4 \<mapsto> memo\<lparr>viewed_by := {1}\<rparr>]\<rparr>"

text \<open>
  A published broadcast to everybody, created by carol, and a draft of it, not
  published, with the private event, in one database. In another database the broadcast
  has been acknowledged by alice, dave and erin, and dave and erin have been deactivated
  since.
\<close>

definition notice :: broadcast where
  "notice = \<lparr>priority = ''normal'', start_date = (10, 0), end_date = (12, 0),
     audience_type = ''all'', target_groups = {}, target_users = {}, acknowledged_by = {},
     viewed_by = {}, send_email = False, is_published = True, broadcast_is_active = True,
     broadcast_created_by = 1\<rparr>"

definition draft :: broadcast where
  "draft = notice\<lparr>is_published := False\<rparr>"

definition notice_db :: db where
  "notice_db = \<lparr>users = [carol, alice, dave, admin], groups = Map.empty,
     broadcasts = [4 \<mapsto> notice, 6 \<mapsto> draft],
     events = [7 \<mapsto> closed_door], broadcast_views = [], event_rsvp_logs = []\<rparr>"

definition lapsed_notice :: broadcast where
  "lapsed_notice = notice\<lparr>acknowledged_by := {2, 5, 6}\<rparr>"

definition lapsed_db :: db where
  "lapsed_db = \<lparr>users = [carol, alice, dave, erin], groups = Map.empty,
     broadcasts = [4 \<mapsto> lapsed_notice], events = Map.empty, broadcast_views = [],
     event_rsvp_logs = []\<rparr>"

section \<open>Effect of the signal handlers and the many-to-many managers\<close>

lemma EventRSVPLog_create_fields:
  "users (EventRSVPLog_create now eid uid old new d) = users d"
  "groups (EventRSVPLog_create now eid uid old new d) = groups d"
  "broadcasts (EventRSVPLog_create now eid uid old new d) = broadcasts d"
  "events (EventRSVPLog_create now eid uid old new d) = events d"
  "broadcast_views (EventRSVPLog_create now eid uid old new d) = broadcast_views d"
  "event_rsvp_logs (EventRSVPLog_create now eid uid old new d) =
     event_rsvp_logs d @ [rsvp_row now eid old new uid]"
  by (simp_all add: EventRSVPLog_create_def rsvp_row_def)

lemma signal_fold_fields:
  "users (fold (\<lambda>uid d'. if user_exists d' uid
       then EventRSVPLog_create now eid uid None status d' else d') pks d) = users d"
  "groups (fold (\<lambda>uid d'. if user_exists d' uid
       then EventRSVPLog_create now eid uid None status d' else d') pks d) = groups d"
  "broadcasts (fold (\<lambda>uid d'. if user_exists d' uid
       then EventRSVPLog_create now eid uid None status d' else d') pks d) = broadcasts d"
  "events (fold (\<lambda>uid d'. if user_exists d' uid
       then EventRSVPLog_create now eid uid None status d' else d') pks d) = events d"
  "broadcast_views (fold (\<lambda>uid d'. if user_exists d' uid
       then EventRSVPLog_create now eid uid None status d' else d') pks d) = broadcast_views d"
  by (induction pks arbitrary: d; simp add: EventRSVPLog_create_fields)+

lemma signal_fold_logs:
  "event_rsvp_logs (fold (\<lambda>uid d'. if user_exists d' uid
       then EventRSVPLog_create now eid uid None status d' else d') pks d) =
   event_rsvp_logs d @ map (rsvp_row now eid None status) (filter (user_exists d) pks)"
proof (induction pks arbitrary: d)
  case Nil
  show ?case by simp
next
  case (Cons uid pks)
  have same: "user_exists (EventRSVPLog_create now eid uid None status d) = user_exists d"
    by (rule ext) (simp add: user_exists_def EventRSVPLog_create_fields)
  show ?case
    by (simp add: Cons.IH same EventRSVPLog_create_fields)
qed

lemma rsvp_changed_fields:
  "users (rsvp_changed status now eid action pks d) = users d"
  "groups (rsvp_changed status now eid action pks d) = groups d"
  "broadcasts (rsvp_changed status now eid action pks d) = broadcasts d"
  "events (rsvp_changed status now eid action pks d) = events d"
  "broadcast_views (rsvp_changed status now eid action pks d) = broadcast_views d"
  by (simp_all add: rsvp_changed_def signal_fold_fields)

lemma rsvp_changed_logs:
  "event_rsvp_logs (rsvp_changed status now eid action pks d) =
     event_rsvp_logs d @
       (if action = ''post_add'' then map (rsvp_row now eid None status) (filter (user_exists d) pks)
        else [])"
  by (simp add: rsvp_changed_def signal_fold_logs)

lemma update_event_fields:
  "users (update_event pk f d) = users d"
  "groups (update_event pk f d) = groups d"
  "broadcasts (update_event pk f d) = broadcasts d"
  "broadcast_views (update_event pk f d) = broadcast_views d"
  "event_rsvp_logs (update_event pk f d) = event_rsvp_logs d"
  by (simp_all add: update_event_def split: option.split)

lemma update_event_events:
  "events (update_event pk f d) = (case events d pk of None \<Rightarrow> events d | Some e \<Rightarrow> (events d)(pk \<mapsto> f e))"
  by (simp add: update_event_def split: option.split)

lemma user_exists_cong: "users d' = users d \<Longrightarrow> user_exists d' = user_exists d"
  by (rule ext) (simp add: user_exists_def)

lemma user_exists_update_event: "user_exists (update_event pk f d) = user_exists d"
  by (rule user_exists_cong) (simp add: update_event_fields)

lemma user_exists_rsvp_changed:
  "user_exists (rsvp_changed status now eid action pks d) = user_exists d"
  by (rule user_exists_cong) (simp add: rsvp_changed_fields)

lemma get_event_or_404_Some:
  "get_event_or_404 d u pk = Some e \<Longrightarrow> events d pk = Some e"
  by (simp add: get_event_or_404_def split: option.splits if_splits)

lemma RSVPSerializer_Some:
  "RSVPSerializer data = Some s \<Longrightarrow> data = Some s \<and> (s = ''yes'' \<or> s = ''no'' \<or> s = ''maybe'')"
  by (auto simp add: RSVPSerializer_def split: option.splits if_splits)

lemmas rsvp_m2m_defs =
  rsvp_yes_add_def rsvp_no_add_def rsvp_maybe_add_def
  rsvp_yes_remove_def rsvp_no_remove_def rsvp_maybe_remove_def
  event_rsvp_yes_changed_def event_rsvp_no_changed_def event_rsvp_maybe_changed_def

lemma m2m_events:
  assumes "events d pk = Some e"
  shows "events (rsvp_yes_add now pk uid d) = (events d)(pk \<mapsto> e\<lparr>rsvp_yes := insert uid (rsvp_yes e)\<rparr>)"
    and "events (rsvp_no_add now pk uid d) = (events d)(pk \<mapsto> e\<lparr>rsvp_no := insert uid (rsvp_no e)\<rparr>)"
    and "events (rsvp_maybe_add now pk uid d) = (events d)(pk \<mapsto> e\<lparr>rsvp_maybe := insert uid (rsvp_maybe e)\<rparr>)"
    and "events (rsvp_yes_remove now pk uid d) = (events d)(pk \<mapsto> e\<lparr>rsvp_yes := rsvp_yes e - {uid}\<rparr>)"
    and "events (rsvp_no_remove now pk uid d) = (events d)(pk \<mapsto> e\<lparr>rsvp_no := rsvp_no e - {uid}\<rparr>)"
    and "events (rsvp_maybe_remove now pk uid d) = (events d)(pk \<mapsto> e\<lparr>rsvp_maybe := rsvp_maybe e - {uid}\<rparr>)"
  using assms by (simp_all add: rsvp_m2m_defs rsvp_changed_fields update_event_events)

lemma m2m_remove_logs:
  "event_rsvp_logs (rsvp_yes_remove now pk uid d) = event_rsvp_logs d"
  "event_rsvp_logs (rsvp_no_remove now pk uid d) = event_rsvp_logs d"
  "event_rsvp_logs (rsvp_maybe_remove now pk uid d) = event_rsvp_logs d"
  by (simp_all add: rsvp_m2m_defs rsvp_changed_logs update_event_fields)

lemma m2m_add_logs:
  assumes "events d pk = Some e"
  shows "event_rsvp_logs (rsvp_yes_add now pk uid d) = event_rsvp_logs d @
      (if uid \<notin> rsvp_yes e \<and> user_exists d uid then [rsvp_row now pk None ''yes'' uid] else [])"
    and "event_rsvp_logs (rsvp_no_add now pk uid d) = event_rsvp_logs d @
      (if uid \<notin> rsvp_no e \<and> user_exists d uid then [rsvp_row now pk None ''no'' uid] else [])"
    and "event_rsvp_logs (rsvp_maybe_add now pk uid d) = event_rsvp_logs d @
      (if uid \<notin> rsvp_maybe e \<and> user_exists d uid then [rsvp_row now pk None ''maybe'' uid] else [])"
  using assms
  by (simp_all add: rsvp_m2m_defs rsvp_changed_logs update_event_fields
      user_exists_update_event related_def added_keys_def)

lemma m2m_users:
  "users (rsvp_yes_add now pk uid d) = users d"
  "users (rsvp_no_add now pk uid d) = users d"
  "users (rsvp_maybe_add now pk uid d) = users d"
  "users (rsvp_yes_remove now pk uid d) = users d"
  "users (rsvp_no_remove now pk uid d) = users d"
  "users (rsvp_maybe_remove now pk uid d) = users d"
  by (simp_all add: rsvp_m2m_defs rsvp_changed_fields update_event_fields)

lemma m2m_groups:
  "groups (rsvp_yes_add now pk uid d) = groups d"
  "groups (rsvp_no_add now pk uid d) = groups d"
  "groups (rsvp_maybe_add now pk uid d) = groups d"
  "groups (rsvp_yes_remove now pk uid d) = groups d"
  "groups (rsvp_no_remove now pk uid d) = groups d"
  "groups (rsvp_maybe_remove now pk uid d) = groups d"
  by (simp_all add: rsvp_m2m_defs rsvp_changed_fields update_event_fields)

lemma m2m_broadcasts:
  "broadcasts (rsvp_yes_add now pk uid d) = broadcasts d"
  "broadcasts (rsvp_no_add now pk uid d) = broadcasts d"
  "broadcasts (rsvp_maybe_add now pk uid d) = broadcasts d"
  "broadcasts (rsvp_yes_remove now pk uid d) = broadcasts d"
  "broadcasts (rsvp_no_remove now pk uid d) = broadcasts d"
  "broadcasts (rsvp_maybe_remove now pk uid d) = broadcasts d"
  by (simp_all add: rsvp_m2m_defs rsvp_changed_fields update_event_fields)

lemma m2m_broadcast_views:
  "broadcast_views (rsvp_yes_add now pk uid d) = broadcast_views d"
  "broadcast_views (rsvp_no_add now pk uid d) = broadcast_views d"
  "broadcast_views (rsvp_maybe_add now pk uid d) = broadcast_views d"
  "broadcast_views (rsvp_yes_remove now pk uid d) = broadcast_views d"
  "broadcast_views (rsvp_no_remove now pk uid d) = broadcast_views d"
  "broadcast_views (rsvp_maybe_remove now pk uid d) = broadcast_views d"
  by (simp_all add: rsvp_m2m_defs rsvp_changed_fields update_event_fields)

section \<open>Effect of the RSVP action\<close>

lemma rsvp_accepted:
  assumes u: "req_user req = Some u"
    and e: "get_event_or_404 d u pk = Some e"
    and perm: "CanRSVPToEvent_has_object_permission d now u e"
    and s: "RSVPSerializer data = Some s"
  shows "fst (rsvp now req pk data d) = HTTP_200_OK"
    and "events (snd (rsvp now req pk data d)) = (events d)(pk \<mapsto> set_rsvp (user_id u) s e)"
    and "event_rsvp_logs (snd (rsvp now req pk data d)) =
           event_rsvp_logs d @
           (if user_exists d (user_id u) then [rsvp_row now pk None s (user_id u)] else []) @
           [rsvp_row now pk (get_user_rsvp_status e u) s (user_id u)]"
    and "users (snd (rsvp now req pk data d)) = users d"
    and "groups (snd (rsvp now req pk data d)) = groups d"
    and "broadcasts (snd (rsvp now req pk data d)) = broadcasts d"
    and "broadcast_views (snd (rsvp now req pk data d)) = broadcast_views d"
proof -
  define uid where "uid = user_id u"
  define d1 where "d1 = rsvp_yes_remove now pk uid d"
  define d2 where "d2 = rsvp_no_remove now pk uid d1"
  define d3 where "d3 = rsvp_maybe_remove now pk uid d2"
  define d4 where "d4 = (if s = ''yes'' then rsvp_yes_add now pk uid d3
                         else if s = ''no'' then rsvp_no_add now pk uid d3
                         else if s = ''maybe'' then rsvp_maybe_add now pk uid d3
                         else d3)"
  define e1 where "e1 = e\<lparr>rsvp_yes := rsvp_yes e - {uid}\<rparr>"
  define e2 where "e2 = e1\<lparr>rsvp_no := rsvp_no e1 - {uid}\<rparr>"
  define e3 where "e3 = e2\<lparr>rsvp_maybe := rsvp_maybe e2 - {uid}\<rparr>"
  have run: "rsvp now req pk data d =
      (HTTP_200_OK, EventRSVPLog_create now pk uid (get_user_rsvp_status e u) s d4)"
    using u e perm s by (simp add: rsvp_def Let_def d1_def d2_def d3_def d4_def uid_def)
  have ev: "events d pk = Some e" by (rule get_event_or_404_Some [OF e])
  have ev1: "events d1 = (events d)(pk \<mapsto> e1)"
    unfolding d1_def e1_def by (rule m2m_events(4) [OF ev])
  have ev2: "events d2 = (events d)(pk \<mapsto> e2)"
    using m2m_events(5) [of d1 pk e1 now uid] by (simp add: ev1 d2_def e2_def)
  have ev3: "events d3 = (events d)(pk \<mapsto> e3)"
    using m2m_events(6) [of d2 pk e2 now uid] by (simp add: ev2 d3_def e3_def)
  have ev3': "events d3 pk = Some e3" by (simp add: ev3)
  have e3: "e3 = e\<lparr>rsvp_yes := rsvp_yes e - {uid}, rsvp_no := rsvp_no e - {uid},
                      rsvp_maybe := rsvp_maybe e - {uid}\<rparr>"
    by (simp add: e3_def e2_def e1_def)
  from RSVPSerializer_Some [OF s]
  consider (yes) "s = ''yes''" | (no) "s = ''no''" | (maybe) "s = ''maybe''" by blast
  then have ev4: "events d4 = (events d)(pk \<mapsto> set_rsvp uid s e)"
  proof cases
    case yes
    then show ?thesis
      using m2m_events(1) [OF ev3', of now uid]
      by (simp add: d4_def ev3 set_rsvp_def Let_def e3 [symmetric])
  next
    case no
    then show ?thesis
      using m2m_events(2) [OF ev3', of now uid]
      by (simp add: d4_def ev3 set_rsvp_def Let_def e3 [symmetric])
  next
    case maybe
    then show ?thesis
      using m2m_events(3) [OF ev3', of now uid]
      by (simp add: d4_def ev3 set_rsvp_def Let_def e3 [symmetric])
  qed
  have us3: "users d3 = users d"
    by (simp add: d3_def d2_def d1_def m2m_users)
  have ex3: "user_exists d3 uid = user_exists d uid"
    by (simp add: user_exists_def us3)
  have lg3: "event_rsvp_logs d3 = event_rsvp_logs d"
    by (simp add: d3_def d2_def d1_def m2m_remove_logs)
  have out3: "uid \<notin> rsvp_yes e3" "uid \<notin> rsvp_no e3" "uid \<notin> rsvp_maybe e3"
    by (simp_all add: e3)
  have sv: "s = ''yes'' \<or> s = ''no'' \<or> s = ''maybe''"
    using RSVPSerializer_Some [OF s] by simp
  have lg4: "event_rsvp_logs d4 = event_rsvp_logs d @
      (if user_exists d uid then [rsvp_row now pk None s uid] else [])"
    using sv m2m_add_logs [OF ev3', of now uid]
    by (auto simp add: d4_def out3 ex3 lg3)
  have other4: "users d4 = users d" "groups d4 = groups d" "broadcasts d4 = broadcasts d"
    "broadcast_views d4 = broadcast_views d"
    by (simp_all add: d4_def d3_def d2_def d1_def m2m_users m2m_groups m2m_broadcasts
        m2m_broadcast_views)
  show "fst (rsvp now req pk data d) = HTTP_200_OK" by (simp add: run)
  show "events (snd (rsvp now req pk data d)) = (events d)(pk \<mapsto> set_rsvp (user_id u) s e)"
    by (simp add: run EventRSVPLog_create_fields ev4 uid_def [symmetric])
  show "event_rsvp_logs (snd (rsvp now req pk data d)) =
           event_rsvp_logs d @
           (if user_exists d (user_id u) then [rsvp_row now pk None s (user_id u)] else []) @
           [rsvp_row now pk (get_user_rsvp_status e u) s (user_id u)]"
    by (simp add: run EventRSVPLog_create_fields lg4 uid_def [symmetric])
  show "users (snd (rsvp now req pk data d)) = users d"
    by (simp add: run EventRSVPLog_create_fields other4)
  show "groups (snd (rsvp now req pk data d)) = groups d"
    by (simp add: run EventRSVPLog_create_fields other4)
  show "broadcasts (snd (rsvp now req pk data d)) = broadcasts d"
    by (simp add: run EventRSVPLog_create_fields other4)
  show "broadcast_views (snd (rsvp now req pk data d)) = broadcast_views d"
    by (simp add: run EventRSVPLog_create_fields other4)
qed

lemma rsvp_rejected_imp:
  "fst (rsvp now req pk data d) \<noteq> HTTP_200_OK \<longrightarrow> snd (rsvp now req pk data d) = d"
  by (simp add: rsvp_def Let_def split: option.split)

lemma rsvp_rejected:
  assumes "fst (rsvp now req pk data d) \<noteq> HTTP_200_OK"
  shows "snd (rsvp now req pk data d) = d"
  using assms rsvp_rejected_imp by blast

lemma rsvp_accepted_imp:
  "fst (rsvp now req pk data d) = HTTP_200_OK \<longrightarrow>
     (\<exists>u e s. req_user req = Some u \<and> get_event_or_404 d u pk = Some e \<and>
        CanRSVPToEvent_has_object_permission d now u e \<and> RSVPSerializer data = Some s)"
  by (simp add: rsvp_def Let_def split: option.split)

lemma rsvp_cases:
  obtains (rejected) "fst (rsvp now req pk data d) \<noteq> HTTP_200_OK" "snd (rsvp now req pk data d) = d"
  | (accepted) u e s where "req_user req = Some u" "get_event_or_404 d u pk = Some e"
      "CanRSVPToEvent_has_object_permission d now u e" "RSVPSerializer data = Some s"
      "fst (rsvp now req pk data d) = HTTP_200_OK"
proof (cases "fst (rsvp now req pk data d) = HTTP_200_OK")
  case False
  then show ?thesis using rejected rsvp_rejected by blast
next
  case True
  then obtain u e s where "req_user req = Some u" "get_event_or_404 d u pk = Some e"
      "CanRSVPToEvent_has_object_permission d now u e" "RSVPSerializer data = Some s"
    using rsvp_accepted_imp by blast
  then show ?thesis using accepted True by blast
qed

section \<open>RSVP sets stay mutually exclusive\<close>

lemma set_rsvp_exclusive: "rsvp_exclusive e \<Longrightarrow> rsvp_exclusive (set_rsvp uid s e)"
  by (auto simp add: rsvp_exclusive_def set_rsvp_def Let_def)

lemma rsvp_keeps_exclusive:
  assumes "events d eid = Some e" and "rsvp_exclusive e"
  shows "\<exists>e'. events (snd (rsvp now req pk data d)) eid = Some e' \<and> rsvp_exclusive e'"
proof (cases rule: rsvp_cases [of now req pk data d])
  case rejected
  then show ?thesis using assms by simp
next
  case (accepted u e0 s)
  have ev: "events (snd (rsvp now req pk data d)) = (events d)(pk \<mapsto> set_rsvp (user_id u) s e0)"
    by (rule rsvp_accepted(2) [OF accepted(1-4)])
  have e0: "events d pk = Some e0" by (rule get_event_or_404_Some [OF accepted(2)])
  show ?thesis
  proof (cases "eid = pk")
    case True
    with e0 assms have "e0 = e" by simp
    with True ev assms(2) show ?thesis by (simp add: set_rsvp_exclusive)
  next
    case False
    with ev assms show ?thesis by simp
  qed
qed

text \<open>
  C3. For every event whose three RSVP sets are mutually exclusive (as they are when the
  event is created, with all three empty), after any finite sequence of \<^verbatim>\<open>rsvp\<close>
  requests, by any users, on any events, in any order and whatever their outcome, the
  event still exists and every user belongs to at most one of \<^verbatim>\<open>rsvp_yes\<close>,
  \<^verbatim>\<open>rsvp_no\<close> and \<^verbatim>\<open>rsvp_maybe\<close>.
\<close>

theorem rsvp_sets_mutually_exclusive:
  assumes "events d eid = Some e" and "rsvp_exclusive e"
  shows "\<exists>e'. events (rsvp_sequence calls d) eid = Some e' \<and> rsvp_exclusive e'"
  using assms
proof (induction calls arbitrary: d e)
  case Nil
  then show ?case by simp
next
  case (Cons call calls)
  obtain now req pk data where call: "call = (now, req, pk, data)"
    by (cases call) auto
  from rsvp_keeps_exclusive [OF Cons.prems, of now req pk data]
  obtain e1 where "events (snd (rsvp now req pk data d)) eid = Some e1" "rsvp_exclusive e1"
    by blast
  from Cons.IH [OF this] show ?case by (simp add: call)
qed

text \<open>The invariant on a new public event, with three requests by two users.\<close>

theorem rsvp_sets_mutually_exclusive_witness:
  "events party_db 7 = Some party \<and> rsvp_exclusive party \<and>
   (\<exists>e'. events (rsvp_sequence
            [((19, 0), as_user alice, 7, Some ''yes''), ((19, 5), as_user bob, 7, Some ''no''),
             ((19, 9), as_user alice, 7, Some ''maybe'')] party_db) 7 = Some e' \<and>
         rsvp_exclusive e')"
proof -
  have 1: "events party_db 7 = Some party" by (simp add: party_db_def)
  have 2: "rsvp_exclusive party" by (simp add: rsvp_exclusive_def party_def)
  from rsvp_sets_mutually_exclusive [OF 1 2] 1 2 show ?thesis by blast
qed

section \<open>RSVP log rows\<close>

lemma get_event_or_404_public:
  assumes "events d pk = Some e" and "event_is_active e" and "is_public e"
  shows "get_event_or_404 d u pk = Some e"
  using assms by (simp add: get_event_or_404_def EventViewSet_get_queryset_def)

text \<open>
  What one accepted request appends to \<^verbatim>\<open>EventRSVPLog\<close> when the requesting user
  has a row in the user table: the row of the \<^verbatim>\<open>m2m_changed\<close> handler, with no old
  status, and then the row of the view, with the old status.
\<close>

lemma rsvp_appends_two_rows:
  assumes "fst (rsvp now req pk data d) = HTTP_200_OK" and "req_user req = Some u"
    and "user_exists d (user_id u)" and "events d pk = Some e" and "data = Some s"
  shows "event_rsvp_logs (snd (rsvp now req pk data d)) =
           event_rsvp_logs d @
             [rsvp_row now pk None s (user_id u),
              rsvp_row now pk (get_user_rsvp_status e u) s (user_id u)]"
proof (cases rule: rsvp_cases [of now req pk data d])
  case rejected
  with assms(1) show ?thesis by simp
next
  case (accepted u' e' s')
  from accepted(1) assms(2) have u': "u' = u" by simp
  from get_event_or_404_Some [OF accepted(2)] assms(4) have e': "e' = e" by simp
  from RSVPSerializer_Some [OF accepted(4)] assms(5) have s': "s' = s" by simp
  from rsvp_accepted(3) [OF accepted(1-4)] assms(3) show ?thesis
    by (simp add: u' e' s')
qed

text \<open>
  C1. An event dated tomorrow, public and new; one user answers ``yes'' and then
  ``maybe''. Both requests are accepted and the user ends in \<^verbatim>\<open>rsvp_maybe\<close> only, but
  each request appends two rows to \<^verbatim>\<open>EventRSVPLog\<close>, the handler's and the view's, so
  the log holds four rows, not the two the claim gives, and three of them have no old
  status.
\<close>

theorem rsvp_yes_then_maybe_logs_four_rows:
  "fst (rsvp (19, 0) (as_user alice) 7 (Some ''yes'') party_db) = HTTP_200_OK \<and>
   fst (rsvp (19, 5) (as_user alice) 7 (Some ''maybe'')
          (snd (rsvp (19, 0) (as_user alice) 7 (Some ''yes'') party_db))) = HTTP_200_OK \<and>
   events (rsvp_sequence [((19, 0), as_user alice, 7, Some ''yes''),
                          ((19, 5), as_user alice, 7, Some ''maybe'')] party_db) 7 =
     Some (party\<lparr>rsvp_yes := {}, rsvp_no := {}, rsvp_maybe := {2}\<rparr>) \<and>
   event_rsvp_logs (snd (rsvp (19, 0) (as_user alice) 7 (Some ''yes'') party_db)) =
     [\<lparr>log_event = 7, log_user = 2, old_status = None, new_status = ''yes'',
       changed_at = (19, 0)\<rparr>,
      \<lparr>log_event = 7, log_user = 2, old_status = None, new_status = ''yes'',
       changed_at = (19, 0)\<rparr>] \<and>
   event_rsvp_logs (rsvp_sequence [((19, 0), as_user alice, 7, Some ''yes''),
                                   ((19, 5), as_user alice, 7, Some ''maybe'')] party_db) =
     [\<lparr>log_event = 7, log_user = 2, old_status = None, new_status = ''yes'',
       changed_at = (19, 0)\<rparr>,
      \<lparr>log_event = 7, log_user = 2, old_status = None, new_status = ''yes'',
       changed_at = (19, 0)\<rparr>,
      \<lparr>log_event = 7, log_user = 2, old_status = None, new_status = ''maybe'',
       changed_at = (19, 5)\<rparr>,
      \<lparr>log_event = 7, log_user = 2, old_status = Some ''yes'', new_status = ''maybe'',
       changed_at = (19, 5)\<rparr>]"
proof -
  let ?r = "as_user alice"
  define d1 where "d1 = snd (rsvp (19, 0) ?r 7 (Some ''yes'') party_db)"
  define e1 where "e1 = set_rsvp 2 ''yes'' party"
  have u: "req_user ?r = Some alice" by (simp add: as_user_def)
  have uid: "user_id alice = 2" by (simp add: alice_def)
  have ex: "user_exists party_db 2" by (simp add: user_exists_def party_db_def alice_def)
  have ev0: "events party_db 7 = Some party" by (simp add: party_db_def)
  have lg0: "event_rsvp_logs party_db = []" by (simp add: party_db_def)
  have g0: "get_event_or_404 party_db alice 7 = Some party"
    by (rule get_event_or_404_public [OF ev0]) (simp_all add: party_def)
  have p0: "CanRSVPToEvent_has_object_permission party_db (19, 0) alice party"
    by (simp add: CanRSVPToEvent_has_object_permission_def user_can_view_def is_upcoming_def
        combine_def party_def)
  have s0: "RSVPSerializer (Some ''yes'') = Some ''yes''" by (simp add: RSVPSerializer_def)
  note a0 = rsvp_accepted [OF u g0 p0 s0, folded d1_def, unfolded uid]
  have ok1: "fst (rsvp (19, 0) ?r 7 (Some ''yes'') party_db) = HTTP_200_OK" by (rule a0(1))
  have ev1: "events d1 7 = Some e1" by (simp add: a0(2) e1_def)
  have e1: "e1 = party\<lparr>rsvp_yes := {2}\<rparr>"
    by (simp add: e1_def set_rsvp_def Let_def party_def)
  have lg1: "event_rsvp_logs d1 =
      [rsvp_row (19, 0) 7 None ''yes'' 2, rsvp_row (19, 0) 7 None ''yes'' 2]"
    by (simp add: a0(3) ex lg0 get_user_rsvp_status_def party_def uid)
  have ex1: "user_exists d1 2" using ex by (simp add: user_exists_def a0(4))
  have g1: "get_event_or_404 d1 alice 7 = Some e1"
    by (rule get_event_or_404_public [OF ev1]) (simp_all add: e1 party_def)
  have p1: "CanRSVPToEvent_has_object_permission d1 (19, 5) alice e1"
    by (simp add: CanRSVPToEvent_has_object_permission_def user_can_view_def is_upcoming_def
        combine_def e1 party_def)
  have s1: "RSVPSerializer (Some ''maybe'') = Some ''maybe''" by (simp add: RSVPSerializer_def)
  note a1 = rsvp_accepted [OF u g1 p1 s1, unfolded uid]
  have old1: "get_user_rsvp_status e1 alice = Some ''yes''"
    by (simp add: get_user_rsvp_status_def e1 uid)
  have e2: "set_rsvp 2 ''maybe'' e1 = party\<lparr>rsvp_yes := {}, rsvp_no := {}, rsvp_maybe := {2}\<rparr>"
    by (simp add: e1 set_rsvp_def Let_def party_def)
  have seq: "rsvp_sequence [((19, 0), ?r, 7, Some ''yes''), ((19, 5), ?r, 7, Some ''maybe'')]
      party_db = snd (rsvp (19, 5) ?r 7 (Some ''maybe'') d1)"
    by (simp add: d1_def)
  show ?thesis
    unfolding seq d1_def [symmetric]
    by (simp add: ok1 a1(1) a1(2) a1(3) e2 lg1 ex1 old1 rsvp_row_def)
qed

section \<open>Who may RSVP, and how a late RSVP is rejected\<close>

lemma queryset_and_can_view:
  "EventViewSet_get_queryset d u e \<and> user_can_view d e u \<longleftrightarrow>
     event_is_active e \<and> user_can_view d e u"
  by (auto simp add: EventViewSet_get_queryset_def user_can_view_def)

lemma rsvp_response:
  assumes "req_user req = Some u" and "events d pk = Some e"
  shows "fst (rsvp now req pk data d) =
     (if \<not> EventViewSet_get_queryset d u e then HTTP_404_NOT_FOUND
      else if \<not> CanRSVPToEvent_has_object_permission d now u e then HTTP_403_FORBIDDEN
      else if RSVPSerializer data = None then HTTP_400_BAD_REQUEST
      else HTTP_200_OK)"
  using assms by (auto simp add: rsvp_def get_event_or_404_def Let_def split: option.split)

text \<open>
  C8, as the code has it. For an authenticated user and an existing event, the object
  permission of \<^verbatim>\<open>rsvp\<close> holds exactly when the user can view the event and the
  event's date and time are later than now; the request gets past the permission checks
  (status 200, or 400 for invalid data) exactly when moreover the event is active. A
  request at or after the event's date and time is rejected and leaves the whole
  database, the RSVP sets and the RSVP log included, unchanged: with 403 when the event
  is in the user's queryset, with 404 when it is not.
\<close>

theorem rsvp_permitted_iff_viewable_and_upcoming:
  assumes "req_user req = Some u" and "events d pk = Some e"
  shows "(CanRSVPToEvent_has_object_permission d now u e \<longleftrightarrow>
            user_can_view d e u \<and> now < combine (event_date e) (event_time e)) \<and>
         (fst (rsvp now req pk data d) \<in> {HTTP_200_OK, HTTP_400_BAD_REQUEST} \<longleftrightarrow>
            event_is_active e \<and> user_can_view d e u \<and>
            now < combine (event_date e) (event_time e)) \<and>
         (combine (event_date e) (event_time e) \<le> now \<longrightarrow>
            fst (rsvp now req pk data d) =
              (if EventViewSet_get_queryset d u e then HTTP_403_FORBIDDEN
               else HTTP_404_NOT_FOUND) \<and>
            snd (rsvp now req pk data d) = d)"
proof (intro conjI impI)
  show perm: "CanRSVPToEvent_has_object_permission d now u e \<longleftrightarrow>
      user_can_view d e u \<and> now < combine (event_date e) (event_time e)"
    by (simp add: CanRSVPToEvent_has_object_permission_def is_upcoming_def)
  show "fst (rsvp now req pk data d) \<in> {HTTP_200_OK, HTTP_400_BAD_REQUEST} \<longleftrightarrow>
      event_is_active e \<and> user_can_view d e u \<and> now < combine (event_date e) (event_time e)"
    using queryset_and_can_view [of d u e]
    by (auto simp add: rsvp_response [OF assms] perm)
next
  assume late: "combine (event_date e) (event_time e) \<le> now"
  then have no: "\<not> CanRSVPToEvent_has_object_permission d now u e"
    by (simp add: CanRSVPToEvent_has_object_permission_def is_upcoming_def not_less)
  show "fst (rsvp now req pk data d) =
      (if EventViewSet_get_queryset d u e then HTTP_403_FORBIDDEN else HTTP_404_NOT_FOUND)"
    by (simp add: rsvp_response [OF assms] no)
  then have "fst (rsvp now req pk data d) \<noteq> HTTP_200_OK" by simp
  then show "snd (rsvp now req pk data d) = d" by (rule rsvp_rejected)
qed

text \<open>The day after the party, a late answer to it is refused with 403.\<close>

theorem rsvp_permitted_iff_viewable_and_upcoming_witness:
  "req_user (as_user alice) = Some alice \<and> events party_db 7 = Some party \<and>
   combine (event_date party) (event_time party) \<le> (21, 0) \<and>
   fst (rsvp (21, 0) (as_user alice) 7 (Some ''yes'') party_db) = HTTP_403_FORBIDDEN \<and>
   snd (rsvp (21, 0) (as_user alice) 7 (Some ''yes'') party_db) = party_db"
proof -
  have 1: "req_user (as_user alice) = Some alice" by (simp add: as_user_def)
  have 2: "events party_db 7 = Some party" by (simp add: party_db_def)
  have 3: "combine (event_date party) (event_time party) \<le> (21, 0)"
    by (simp add: combine_def party_def)
  have 4: "EventViewSet_get_queryset party_db alice party"
    by (simp add: EventViewSet_get_queryset_def party_def)
  from rsvp_permitted_iff_viewable_and_upcoming [OF 1 2, of "(21, 0)" "Some ''yes''"] 1 2 3 4
  show ?thesis by simp
qed

text \<open>
  C8 as stated fails: a user who is not staff answers a private event that is not shown
  to them, after it started. The event is not in that user's queryset, so the request is
  rejected with 404, not 403.
\<close>

theorem late_rsvp_not_found_counterexample:
  "combine (event_date closed_door) (event_time closed_door) \<le> (6, 0) \<and>
   fst (rsvp (6, 0) (as_user alice) 7 (Some ''yes'') closed_door_db) = HTTP_404_NOT_FOUND \<and>
   fst (rsvp (6, 0) (as_user alice) 7 (Some ''yes'') closed_door_db) \<noteq> HTTP_403_FORBIDDEN"
proof -
  have 1: "req_user (as_user alice) = Some alice" by (simp add: as_user_def)
  have 2: "events closed_door_db 7 = Some closed_door" by (simp add: closed_door_db_def)
  have 3: "\<not> EventViewSet_get_queryset closed_door_db alice closed_door"
    by (simp add: EventViewSet_get_queryset_def closed_door_def alice_def
        filter_members_exists_def)
  show ?thesis
    by (simp add: rsvp_response [OF 1 2] 3) (simp add: combine_def closed_door_def)
qed

section \<open>Marking a broadcast as viewed\<close>

lemma get_broadcast_or_404_Some:
  "get_broadcast_or_404 d u pk = Some b \<Longrightarrow> broadcasts d pk = Some b"
  by (simp add: get_broadcast_or_404_def split: option.splits if_splits)

lemma mark_viewed_response:
  assumes "req_user req = Some u" and "broadcasts d pk = Some b"
  shows "fst (mark_viewed now req pk d) =
     (if \<not> BroadcastViewSet_get_queryset d u b then HTTP_404_NOT_FOUND
      else if \<not> (is_staff u \<or> broadcast_created_by b = user_id u) then HTTP_403_FORBIDDEN
      else HTTP_200_OK)"
  using assms
  by (simp add: mark_viewed_def get_broadcast_or_404_def
      IsBroadcastOwnerOrAdmin_has_object_permission_def safe_method_def)

lemma mark_viewed_rejected_imp:
  "fst (mark_viewed now req pk d) \<noteq> HTTP_200_OK \<longrightarrow> snd (mark_viewed now req pk d) = d"
  by (simp add: mark_viewed_def split: option.split)

lemma mark_viewed_rejected:
  "fst (mark_viewed now req pk d) \<noteq> HTTP_200_OK \<Longrightarrow> snd (mark_viewed now req pk d) = d"
  using mark_viewed_rejected_imp by blast

text \<open>
  C10, as the code has it. For an authenticated user who is neither staff nor the
  broadcast's creator, a \<^verbatim>\<open>mark_viewed\<close> request is always rejected and changes
  nothing, so it adds neither a view-log row nor a viewed-set entry: it is rejected with
  403 by the object permission check when the broadcast is in the user's queryset, and
  with 404 before that check when it is not.
\<close>

theorem mark_viewed_rejected_unless_owner_or_staff:
  assumes "req_user req = Some u" and "broadcasts d pk = Some b"
    and "\<not> is_staff u" and "broadcast_created_by b \<noteq> user_id u"
  shows "fst (mark_viewed now req pk d) =
           (if BroadcastViewSet_get_queryset d u b then HTTP_403_FORBIDDEN
            else HTTP_404_NOT_FOUND) \<and>
         snd (mark_viewed now req pk d) = d"
proof -
  have r: "fst (mark_viewed now req pk d) =
      (if BroadcastViewSet_get_queryset d u b then HTTP_403_FORBIDDEN else HTTP_404_NOT_FOUND)"
    using assms(3,4) by (simp add: mark_viewed_response [OF assms(1,2)])
  then have "fst (mark_viewed now req pk d) \<noteq> HTTP_200_OK" by simp
  with r show ?thesis by (simp add: mark_viewed_rejected)
qed

text \<open>The named recipient of the memo marks it as viewed and is refused with 403.\<close>

theorem mark_viewed_rejected_unless_owner_or_staff_witness:
  "req_user (as_user bob) = Some bob \<and> broadcasts memo_db 4 = Some memo \<and>
   \<not> is_staff bob \<and> broadcast_created_by memo \<noteq> user_id bob \<and>
   fst (mark_viewed (11, 0) (as_user bob) 4 memo_db) = HTTP_403_FORBIDDEN \<and>
   snd (mark_viewed (11, 0) (as_user bob) 4 memo_db) = memo_db"
proof -
  have 1: "req_user (as_user bob) = Some bob" by (simp add: as_user_def)
  have 2: "broadcasts memo_db 4 = Some memo" by (simp add: memo_db_def)
  have 3: "\<not> is_staff bob" by (simp add: bob_def)
  have 4: "broadcast_created_by memo \<noteq> user_id bob" by (simp add: memo_def bob_def)
  have 5: "BroadcastViewSet_get_queryset memo_db bob memo"
    by (simp add: BroadcastViewSet_get_queryset_def memo_def bob_def)
  from mark_viewed_rejected_unless_owner_or_staff [OF 1 2 3 4, of "(11, 0)"] 1 2 3 4 5
  show ?thesis by simp
qed

text \<open>
  C10 as stated fails: a user who is neither staff, nor the creator, nor a recipient of
  the memo is refused with 404, by the queryset, and the object permission check is not
  reached.
\<close>

theorem mark_viewed_not_found_counterexample:
  "\<not> is_staff alice \<and> broadcast_created_by memo \<noteq> user_id alice \<and>
   fst (mark_viewed (11, 0) (as_user alice) 4 memo_db) = HTTP_404_NOT_FOUND \<and>
   fst (mark_viewed (11, 0) (as_user alice) 4 memo_db) \<noteq> HTTP_403_FORBIDDEN"
proof -
  have 1: "req_user (as_user alice) = Some alice" by (simp add: as_user_def)
  have 2: "broadcasts memo_db 4 = Some memo" by (simp add: memo_db_def)
  have 3: "\<not> BroadcastViewSet_get_queryset memo_db alice memo"
    by (simp add: BroadcastViewSet_get_queryset_def memo_def alice_def)
  show ?thesis
    by (simp add: mark_viewed_response [OF 1 2] 3) (simp add: alice_def memo_def)
qed

lemma update_broadcast_fields:
  "users (update_broadcast pk f d) = users d"
  "groups (update_broadcast pk f d) = groups d"
  "events (update_broadcast pk f d) = events d"
  "broadcast_views (update_broadcast pk f d) = broadcast_views d"
  "event_rsvp_logs (update_broadcast pk f d) = event_rsvp_logs d"
  by (simp_all add: update_broadcast_def split: option.split)

lemma update_broadcast_broadcasts:
  "broadcasts d pk = Some b \<Longrightarrow>
     broadcasts (update_broadcast pk f d) = (broadcasts d)(pk \<mapsto> f b)"
  by (simp add: update_broadcast_def)

lemma get_or_create_fields:
  "users (BroadcastView_get_or_create now pk uid ip d) = users d"
  "groups (BroadcastView_get_or_create now pk uid ip d) = groups d"
  "broadcasts (BroadcastView_get_or_create now pk uid ip d) = broadcasts d"
  "events (BroadcastView_get_or_create now pk uid ip d) = events d"
  "event_rsvp_logs (BroadcastView_get_or_create now pk uid ip d) = event_rsvp_logs d"
  by (simp_all add: BroadcastView_get_or_create_def)

lemma view_rows_nonempty:
  "view_rows d pk uid \<noteq> [] \<longleftrightarrow>
     (\<exists>v\<in>set (broadcast_views d). view_broadcast v = pk \<and> view_user v = uid)"
  by (auto simp add: view_rows_def filter_empty_conv)

lemma get_or_create_rows:
  "length (view_rows d pk uid) \<le> 1 \<Longrightarrow>
     length (view_rows (BroadcastView_get_or_create now pk uid ip d) pk uid) = 1"
proof (cases "view_rows d pk uid = []")
  case True
  assume "length (view_rows d pk uid) \<le> 1"
  from True have "\<not> (\<exists>v\<in>set (broadcast_views d). view_broadcast v = pk \<and> view_user v = uid)"
    by (simp add: view_rows_nonempty [symmetric])
  then have "BroadcastView_get_or_create now pk uid ip d =
      d\<lparr>broadcast_views := broadcast_views d @
          [\<lparr>view_broadcast = pk, view_user = uid, viewed_at = now, ip_address = ip\<rparr>]\<rparr>"
    by (simp add: BroadcastView_get_or_create_def)
  with True show ?thesis by (simp add: view_rows_def)
next
  case False
  assume le: "length (view_rows d pk uid) \<le> 1"
  from False have "\<exists>v\<in>set (broadcast_views d). view_broadcast v = pk \<and> view_user v = uid"
    by (simp add: view_rows_nonempty)
  then have same: "BroadcastView_get_or_create now pk uid ip d = d"
    by (simp add: BroadcastView_get_or_create_def)
  from False le have "length (view_rows d pk uid) = 1"
    by (cases "view_rows d pk uid") simp_all
  then show ?thesis by (simp add: same)
qed

lemma mark_viewed_accepted_imp:
  "fst (mark_viewed now req pk d) = HTTP_200_OK \<longrightarrow>
     (\<exists>u b. req_user req = Some u \<and> get_broadcast_or_404 d u pk = Some b \<and>
        IsBroadcastOwnerOrAdmin_has_object_permission d now POST u b)"
  by (simp add: mark_viewed_def split: option.split)

lemma mark_viewed_accepted:
  assumes u: "req_user req = Some u"
    and b: "get_broadcast_or_404 d u pk = Some b"
    and perm: "IsBroadcastOwnerOrAdmin_has_object_permission d now POST u b"
  shows "broadcasts (snd (mark_viewed now req pk d)) =
           (broadcasts d)(pk \<mapsto> b\<lparr>viewed_by := insert (user_id u) (viewed_by b)\<rparr>)"
    and "view_log_consistent d pk (user_id u) \<Longrightarrow>
           length (view_rows (snd (mark_viewed now req pk d)) pk (user_id u)) = 1"
    and "users (snd (mark_viewed now req pk d)) = users d"
    and "groups (snd (mark_viewed now req pk d)) = groups d"
proof -
  have bs: "broadcasts d pk = Some b" by (rule get_broadcast_or_404_Some [OF b])
  show "broadcasts (snd (mark_viewed now req pk d)) =
           (broadcasts d)(pk \<mapsto> b\<lparr>viewed_by := insert (user_id u) (viewed_by b)\<rparr>)"
  proof (cases "user_id u \<in> viewed_by b")
    case True
    then have "b\<lparr>viewed_by := insert (user_id u) (viewed_by b)\<rparr> = b"
      by (simp add: insert_absorb)
    with True bs show ?thesis
      using u b perm by (simp add: mark_viewed_def fun_upd_idem)
  next
    case False
    then show ?thesis
      using u b perm
      by (simp add: mark_viewed_def get_or_create_fields viewed_by_add_def
          update_broadcast_broadcasts [OF bs])
  qed
  show "users (snd (mark_viewed now req pk d)) = users d"
    using u b perm
    by (simp add: mark_viewed_def get_or_create_fields viewed_by_add_def update_broadcast_fields)
  show "groups (snd (mark_viewed now req pk d)) = groups d"
    using u b perm
    by (simp add: mark_viewed_def get_or_create_fields viewed_by_add_def update_broadcast_fields)
  assume c: "view_log_consistent d pk (user_id u)"
  show "length (view_rows (snd (mark_viewed now req pk d)) pk (user_id u)) = 1"
  proof (cases "user_id u \<in> viewed_by b")
    case True
    with c bs have "view_rows d pk (user_id u) \<noteq> []" "length (view_rows d pk (user_id u)) \<le> 1"
      by (simp_all add: view_log_consistent_def related_b_def)
    then have "length (view_rows d pk (user_id u)) = 1"
      by (cases "view_rows d pk (user_id u)") simp_all
    with True show ?thesis using u b perm by (simp add: mark_viewed_def)
  next
    case False
    let ?d = "viewed_by_add pk (user_id u) d"
    have "view_rows ?d pk (user_id u) = view_rows d pk (user_id u)"
      by (simp add: view_rows_def viewed_by_add_def update_broadcast_fields)
    with c have "length (view_rows ?d pk (user_id u)) \<le> 1"
      by (simp add: view_log_consistent_def)
    from get_or_create_rows [OF this] False show ?thesis
      using u b perm by (simp add: mark_viewed_def)
  qed
qed

lemma mark_viewed_twice:
  "snd (mark_viewed now' req pk (snd (mark_viewed now req pk d))) = snd (mark_viewed now req pk d)"
proof (cases "fst (mark_viewed now req pk d) = HTTP_200_OK")
  case False
  then have same: "snd (mark_viewed now req pk d) = d" by (rule mark_viewed_rejected)
  have "fst (mark_viewed now' req pk d) = fst (mark_viewed now req pk d)"
    by (simp add: mark_viewed_def IsBroadcastOwnerOrAdmin_has_object_permission_def
        safe_method_def split: option.split)
  with False have "snd (mark_viewed now' req pk d) = d" by (simp add: mark_viewed_rejected)
  with same show ?thesis by simp
next
  case True
  with mark_viewed_accepted_imp obtain u b where u: "req_user req = Some u"
    and b: "get_broadcast_or_404 d u pk = Some b"
    and perm: "IsBroadcastOwnerOrAdmin_has_object_permission d now POST u b"
    by blast
  let ?d1 = "snd (mark_viewed now req pk d)"
  let ?b1 = "b\<lparr>viewed_by := insert (user_id u) (viewed_by b)\<rparr>"
  note a = mark_viewed_accepted [OF u b perm]
  have q: "BroadcastViewSet_get_queryset d u b"
    using b by (simp add: get_broadcast_or_404_def split: option.splits if_splits)
  have fm: "filter_members_exists ?d1 = filter_members_exists d"
    by (intro ext) (simp add: filter_members_exists_def a(4))
  have q1: "BroadcastViewSet_get_queryset ?d1 u ?b1"
    using q by (simp add: BroadcastViewSet_get_queryset_def fm)
  have b1: "get_broadcast_or_404 ?d1 u pk = Some ?b1"
    by (simp add: get_broadcast_or_404_def a(1) q1)
  have p1: "IsBroadcastOwnerOrAdmin_has_object_permission ?d1 now' POST u ?b1"
    using perm by (simp add: IsBroadcastOwnerOrAdmin_has_object_permission_def safe_method_def)
  show ?thesis
    using u b1 p1 by (simp add: mark_viewed_def)
qed

lemma mark_viewed_repeat_fixed:
  "mark_viewed_repeat nows req pk (snd (mark_viewed now req pk d)) = snd (mark_viewed now req pk d)"
  by (induction nows) (simp_all add: mark_viewed_twice)

text \<open>
  C7, as the code has it. After a first \<^verbatim>\<open>mark_viewed\<close> request, any number of
  further requests of the same user for the same broadcast, at any later times, leave
  the database exactly as the first request left it. When the first request is
  accepted, on a view log that agrees with the viewed set for the pair, that state has
  exactly one \<^verbatim>\<open>BroadcastView\<close> row for the pair and the user in \<^verbatim>\<open>viewed_by\<close>.
\<close>

theorem mark_viewed_idempotent:
  "mark_viewed_repeat (now # nows) req pk d = snd (mark_viewed now req pk d) \<and>
   (fst (mark_viewed now req pk d) = HTTP_200_OK \<and> req_user req = Some u \<and>
    view_log_consistent d pk (user_id u) \<longrightarrow>
      length (view_rows (mark_viewed_repeat (now # nows) req pk d) pk (user_id u)) = 1 \<and>
      user_id u \<in> related_b viewed_by pk (mark_viewed_repeat (now # nows) req pk d))"
proof (intro conjI impI)
  show fixed: "mark_viewed_repeat (now # nows) req pk d = snd (mark_viewed now req pk d)"
    by (simp add: mark_viewed_repeat_fixed)
  assume h: "fst (mark_viewed now req pk d) = HTTP_200_OK \<and> req_user req = Some u \<and>
    view_log_consistent d pk (user_id u)"
  with mark_viewed_accepted_imp obtain b where b: "get_broadcast_or_404 d u pk = Some b"
    and perm: "IsBroadcastOwnerOrAdmin_has_object_permission d now POST u b"
    by fastforce
  from h have u: "req_user req = Some u" and c: "view_log_consistent d pk (user_id u)"
    by simp_all
  note a = mark_viewed_accepted [OF u b perm]
  show "length (view_rows (mark_viewed_repeat (now # nows) req pk d) pk (user_id u)) = 1"
    unfolding fixed by (rule a(2) [OF c])
  show "user_id u \<in> related_b viewed_by pk (mark_viewed_repeat (now # nows) req pk d)"
    unfolding fixed by (simp add: related_b_def a(1))
qed

text \<open>The author of the memo marks it as viewed three times.\<close>

theorem mark_viewed_idempotent_witness:
  "fst (mark_viewed (11, 0) (as_user carol) 4 memo_db) = HTTP_200_OK \<and>
   req_user (as_user carol) = Some carol \<and>
   view_log_consistent memo_db 4 (user_id carol) \<and>
   mark_viewed_repeat [(11, 0), (11, 5), (11, 9)] (as_user carol) 4 memo_db =
     snd (mark_viewed (11, 0) (as_user carol) 4 memo_db) \<and>
   length (view_rows (mark_viewed_repeat [(11, 0), (11, 5), (11, 9)] (as_user carol) 4 memo_db)
             4 (user_id carol)) = 1 \<and>
   user_id carol \<in> related_b viewed_by 4
     (mark_viewed_repeat [(11, 0), (11, 5), (11, 9)] (as_user carol) 4 memo_db)"
proof -
  have 1: "req_user (as_user carol) = Some carol" by (simp add: as_user_def)
  have 2: "broadcasts memo_db 4 = Some memo" by (simp add: memo_db_def)
  have 3: "BroadcastViewSet_get_queryset memo_db carol memo"
    by (simp add: BroadcastViewSet_get_queryset_def memo_def carol_def)
  have 4: "fst (mark_viewed (11, 0) (as_user carol) 4 memo_db) = HTTP_200_OK"
    by (simp add: mark_viewed_response [OF 1 2] 3) (simp add: memo_def carol_def)
  have 5: "view_log_consistent memo_db 4 (user_id carol)"
    by (simp add: view_log_consistent_def view_rows_def related_b_def memo_db_def memo_def)
  from mark_viewed_idempotent [of "(11, 0)" "[(11, 5), (11, 9)]" "as_user carol" 4 memo_db carol]
    1 4 5
  show ?thesis by blast
qed

text \<open>
  C7 as stated fails, in two ways. The named recipient of the memo is neither staff nor
  its creator: both requests of that user are refused with 403, and they leave no row
  and no membership. And the creator, once put into \<^verbatim>\<open>viewed_by\<close> on the admin site, is
  accepted with 200 twice, and no row is created, for the view only writes one for a
  user who is not in the set yet.
\<close>

theorem mark_viewed_no_row_counterexample:
  "fst (mark_viewed (11, 0) (as_user bob) 4 memo_db) = HTTP_403_FORBIDDEN \<and>
   view_rows (mark_viewed_repeat [(11, 0), (11, 5)] (as_user bob) 4 memo_db)
     4 (user_id bob) = [] \<and>
   user_id bob \<notin> related_b viewed_by 4
     (mark_viewed_repeat [(11, 0), (11, 5)] (as_user bob) 4 memo_db) \<and>
   fst (mark_viewed (11, 0) (as_user carol) 4 preset_db) = HTTP_200_OK \<and>
   fst (mark_viewed (11, 5) (as_user carol) 4
          (snd (mark_viewed (11, 0) (as_user carol) 4 preset_db))) = HTTP_200_OK \<and>
   view_rows (mark_viewed_repeat [(11, 0), (11, 5)] (as_user carol) 4 preset_db)
     4 (user_id carol) = []"
proof -
  have b1: "req_user (as_user bob) = Some bob" by (simp add: as_user_def)
  have b2: "broadcasts memo_db 4 = Some memo" by (simp add: memo_db_def)
  have b3: "BroadcastViewSet_get_queryset memo_db bob memo"
    by (simp add: BroadcastViewSet_get_queryset_def memo_def bob_def)
  have b4: "fst (mark_viewed (11, 0) (as_user bob) 4 memo_db) = HTTP_403_FORBIDDEN"
    by (simp add: mark_viewed_response [OF b1 b2] b3) (simp add: memo_def bob_def)
  then have "snd (mark_viewed (11, 0) (as_user bob) 4 memo_db) = memo_db"
    by (simp add: mark_viewed_rejected)
  with mark_viewed_repeat_fixed [of "[(11, 5)]" "as_user bob" 4 "(11, 0)" memo_db]
  have b5: "mark_viewed_repeat [(11, 0), (11, 5)] (as_user bob) 4 memo_db = memo_db"
    by simp
  have b6: "view_rows memo_db 4 (user_id bob) = []"
    by (simp add: view_rows_def memo_db_def)
  have b7: "user_id bob \<notin> related_b viewed_by 4 memo_db"
    by (simp add: related_b_def memo_db_def memo_def)
  have c1: "req_user (as_user carol) = Some carol" by (simp add: as_user_def)
  have c2: "broadcasts preset_db 4 = Some (memo\<lparr>viewed_by := {1}\<rparr>)"
    by (simp add: preset_db_def)
  have c4: "fst (mark_viewed (11, 0) (as_user carol) 4 preset_db) = HTTP_200_OK"
    unfolding mark_viewed_response [OF c1 c2]
    by (simp add: BroadcastViewSet_get_queryset_def memo_def carol_def)
  have c5: "snd (mark_viewed (11, 0) (as_user carol) 4 preset_db) = preset_db"
    by (simp add: mark_viewed_def as_user_def get_broadcast_or_404_def c2
        BroadcastViewSet_get_queryset_def IsBroadcastOwnerOrAdmin_has_object_permission_def
        safe_method_def memo_def carol_def)
  with mark_viewed_repeat_fixed [of "[(11, 5)]" "as_user carol" 4 "(11, 0)" preset_db]
  have c6: "mark_viewed_repeat [(11, 0), (11, 5)] (as_user carol) 4 preset_db = preset_db"
    by simp
  have c7: "fst (mark_viewed (11, 5) (as_user carol) 4 preset_db) = HTTP_200_OK"
    unfolding mark_viewed_response [OF c1 c2]
    by (simp add: BroadcastViewSet_get_queryset_def memo_def carol_def)
  have c8: "view_rows preset_db 4 (user_id carol) = []"
    by (simp add: view_rows_def preset_db_def memo_db_def)
  show ?thesis
    by (simp only: b4 b5 b6 b7 c4 c5 c6 c7 c8 simp_thms)
qed

section \<open>Acknowledging a broadcast\<close>








section \<open>Who can view a broadcast or an event\<close>

text \<open>
  C6, as the code has it. For a user who is neither the creator nor staff,
  \<^verbatim>\<open>can_view_broadcast\<close> holds exactly when the broadcast is live, in the closed window
  \<open>start_date \<le> now \<le> end_date\<close> with \<^verbatim>\<open>is_published\<close> and \<^verbatim>\<open>is_active\<close>, and the
  user is targeted in the way the audience type names: audience \<^verbatim>\<open>all\<close>, or audience
  \<^verbatim>\<open>groups\<close> and membership of a target group, or audience \<^verbatim>\<open>users\<close> and
  membership of \<^verbatim>\<open>target_users\<close>.
\<close>

theorem can_view_broadcast_iff_live_and_targeted:
  assumes "\<not> is_staff u" and "broadcast_created_by b \<noteq> user_id u"
  shows "can_view_broadcast d now u b \<longleftrightarrow>
     (start_date b \<le> now \<and> now \<le> end_date b \<and> is_published b \<and> broadcast_is_active b) \<and>
     (audience_type b = ''all'' \<or>
      audience_type b = ''groups'' \<and> filter_members_exists d (target_groups b) (user_id u) \<or>
      audience_type b = ''users'' \<and> user_id u \<in> target_users b)"
  by (auto simp add: can_view_broadcast_def is_visible_def)

text \<open>An ordinary user sees the notice during its window.\<close>

theorem can_view_broadcast_iff_live_and_targeted_witness:
  "\<not> is_staff alice \<and> broadcast_created_by notice \<noteq> user_id alice \<and>
   can_view_broadcast notice_db (11, 30) alice notice"
  using can_view_broadcast_iff_live_and_targeted [of alice notice notice_db "(11, 30)"]
  by (simp add: alice_def notice_def)

text \<open>
  C6 as stated fails at the instant \<open>now = end_date\<close>: the code shows the broadcast to
  an ordinary user, and the half-open window of the claim does not.
\<close>

theorem can_view_broadcast_at_end_counterexample:
  "\<not> is_staff alice \<and> broadcast_created_by notice \<noteq> user_id alice \<and>
   can_view_broadcast notice_db (end_date notice) alice notice \<and>
   \<not> claimed_can_view notice_db (end_date notice) alice notice"
  by (simp add: can_view_broadcast_def is_visible_def claimed_can_view_def alice_def notice_def)

text \<open>
  C2. An administrator cannot view a draft broadcast, nor a private event of somebody
  else: neither \<^verbatim>\<open>can_view_broadcast\<close> nor \<^verbatim>\<open>user_can_view\<close> reads \<^verbatim>\<open>is_staff\<close>.
  The same administrator has both rows in the querysets of the list views, and may
  write to both.
\<close>

theorem staff_cannot_view_draft_or_private_event:
  "is_staff admin \<and>
   \<not> can_view_broadcast notice_db (11, 0) admin draft \<and>
   \<not> user_can_view notice_db closed_door admin \<and>
   BroadcastViewSet_get_queryset notice_db admin draft \<and>
   EventViewSet_get_queryset notice_db admin closed_door \<and>
   IsBroadcastOwnerOrAdmin_has_object_permission notice_db (11, 0) PUT admin draft \<and>
   \<not> IsBroadcastOwnerOrAdmin_has_object_permission notice_db (11, 0) GET admin draft \<and>
   IsEventOwnerOrAdmin_has_object_permission notice_db PUT admin closed_door \<and>
   \<not> IsEventOwnerOrAdmin_has_object_permission notice_db GET admin closed_door"
  by (simp add: can_view_broadcast_def is_visible_def user_can_view_def
      filter_members_exists_def BroadcastViewSet_get_queryset_def EventViewSet_get_queryset_def
      IsBroadcastOwnerOrAdmin_has_object_permission_def
      IsEventOwnerOrAdmin_has_object_permission_def safe_method_def
      admin_def draft_def notice_def closed_door_def)

section \<open>Rounding to a float\<close>

lemma round_half_even_of_int: "round_half_even (of_int n) = n"
  by (simp add: round_half_even_def)

lemma round_half_even_bounds:
  "\<lfloor>q\<rfloor> \<le> round_half_even q" "round_half_even q \<le> \<lfloor>q\<rfloor> + 1"
  by (simp_all add: round_half_even_def Let_def)

lemma round_half_even_mono:
  assumes "x \<le> y"
  shows "round_half_even x \<le> round_half_even y"
proof (cases "\<lfloor>x\<rfloor> = \<lfloor>y\<rfloor>")
  case True
  with assms show ?thesis
    by (auto simp add: round_half_even_def Let_def)
next
  case False
  with assms have "\<lfloor>x\<rfloor> < \<lfloor>y\<rfloor>" by (simp add: floor_mono less_le)
  then have "round_half_even x \<le> \<lfloor>y\<rfloor>"
    using round_half_even_bounds(2) [of x] by linarith
  with round_half_even_bounds(1) [of y] show ?thesis by linarith
qed

lemma round_half_even_error: "\<bar>of_int (round_half_even q) - q\<bar> \<le> 1 / 2"
proof -
  have "of_int \<lfloor>q\<rfloor> \<le> q" "q < of_int \<lfloor>q\<rfloor> + 1" by linarith+
  then show ?thesis
    by (auto simp add: round_half_even_def Let_def abs_le_iff)
qed

lemma round_half_even_le_int: "q \<le> of_int n \<Longrightarrow> round_half_even q \<le> n"
  using round_half_even_mono [of q "of_int n"] by (simp add: round_half_even_of_int)

lemma round_half_even_ge_int: "of_int n \<le> q \<Longrightarrow> n \<le> round_half_even q"
  using round_half_even_mono [of "of_int n" q] by (simp add: round_half_even_of_int)

lemma binade:
  assumes "0 < x"
  shows "2 powr of_int \<lfloor>log 2 x\<rfloor> \<le> x" and "x < 2 powr (of_int \<lfloor>log 2 x\<rfloor> + 1)"
proof -
  have "of_int \<lfloor>log 2 x\<rfloor> \<le> log 2 x" by simp
  then show "2 powr of_int \<lfloor>log 2 x\<rfloor> \<le> x"
    using assms by (simp add: powr_le_iff)
  have "log 2 x < of_int \<lfloor>log 2 x\<rfloor> + 1" by linarith
  then show "x < 2 powr (of_int \<lfloor>log 2 x\<rfloor> + 1)"
    using assms by (simp add: less_powr_iff)
qed

lemma binade_unique:
  assumes "2 powr of_int e \<le> x" and "x < 2 powr (of_int e + 1)"
  shows "\<lfloor>log 2 x\<rfloor> = e"
proof -
  have pos: "0 < x" using assms(1) powr_gt_zero [of 2 "of_int e"] by linarith
  have "of_int e \<le> log 2 x" using assms(1) pos by (simp add: le_log_iff)
  moreover have "log 2 x < of_int e + 1" using assms(2) pos by (simp add: log_less_iff)
  ultimately show ?thesis by linarith
qed


lemma binary64_pos:
  assumes "0 < x"
  shows "binary64 x =
     of_int (round_half_even (x / 2 powr (of_int \<lfloor>log 2 x\<rfloor> - 52))) *
       2 powr (of_int \<lfloor>log 2 x\<rfloor> - 52)"
  using assms by (simp add: binary64_def Let_def)

lemma binary64_0: "binary64 0 = 0"
  by (simp add: binary64_def)

lemma binary64_binade:
  assumes "0 < x"
  shows "2 powr of_int \<lfloor>log 2 x\<rfloor> \<le> binary64 x"
    and "binary64 x \<le> 2 powr (of_int \<lfloor>log 2 x\<rfloor> + 1)"
proof -
  define e where "e = \<lfloor>log 2 x\<rfloor>"
  define u :: real where "u = 2 powr (of_int e - 52)"
  have u: "0 < u" by (simp add: u_def)
  have lo: "2 powr of_int e = 2 ^ 52 * u"
    by (simp add: u_def powr_diff)
  have hi: "2 powr (of_int e + 1) = 2 ^ 53 * u"
    by (simp add: u_def powr_diff powr_add)
  have b: "binary64 x = of_int (round_half_even (x / u)) * u"
    using assms by (simp add: binary64_pos e_def u_def)
  from binade [OF assms] have "2 ^ 52 * u \<le> x" "x < 2 ^ 53 * u"
    by (simp_all add: e_def [symmetric] lo hi)
  with u have "(2 ^ 52 :: real) \<le> x / u" "x / u \<le> 2 ^ 53"
    by (simp_all add: pos_le_divide_eq pos_divide_le_eq)
  then have q: "of_int (2 ^ 52) \<le> x / u" "x / u \<le> of_int (2 ^ 53)" by simp_all
  have "2 ^ 52 \<le> round_half_even (x / u)" "round_half_even (x / u) \<le> 2 ^ 53"
    by (rule round_half_even_ge_int [OF q(1)], rule round_half_even_le_int [OF q(2)])
  then have "(2 ^ 52 :: real) \<le> of_int (round_half_even (x / u))"
    "of_int (round_half_even (x / u)) \<le> (2 ^ 53 :: real)"
    by (metis of_int_le_iff of_int_numeral of_int_power)+
  with u show "2 powr of_int \<lfloor>log 2 x\<rfloor> \<le> binary64 x"
    and "binary64 x \<le> 2 powr (of_int \<lfloor>log 2 x\<rfloor> + 1)"
    by (simp_all add: b e_def [symmetric] lo hi)
qed

lemma binary64_nonneg: "0 \<le> x \<Longrightarrow> 0 \<le> binary64 x"
proof (cases "x = 0")
  case True
  then show ?thesis by (simp add: binary64_0)
next
  case False
  assume "0 \<le> x"
  with False have "0 < x" by simp
  from binary64_binade(1) [OF this] powr_gt_zero [of 2 "of_int \<lfloor>log 2 x\<rfloor>"]
  show ?thesis by linarith
qed

lemma binary64_mono:
  assumes "0 \<le> x" and "x \<le> y"
  shows "binary64 x \<le> binary64 y"
proof (cases "x = 0")
  case True
  with assms show ?thesis by (simp add: binary64_0 binary64_nonneg)
next
  case False
  with assms have x: "0 < x" and y: "0 < y" by simp_all
  have le: "\<lfloor>log 2 x\<rfloor> \<le> \<lfloor>log 2 y\<rfloor>"
    using x y assms(2) by (simp add: floor_mono)
  show ?thesis
  proof (cases "\<lfloor>log 2 x\<rfloor> = \<lfloor>log 2 y\<rfloor>")
    case True
    define u :: real where "u = 2 powr (of_int \<lfloor>log 2 y\<rfloor> - 52)"
    have u: "0 < u" by (simp add: u_def)
    with assms(2) have "x / u \<le> y / u" by (simp add: divide_right_mono)
    then have "round_half_even (x / u) \<le> round_half_even (y / u)"
      by (rule round_half_even_mono)
    then have "(of_int (round_half_even (x / u)) :: real) \<le> of_int (round_half_even (y / u))"
      by simp
    with u show ?thesis
      by (simp add: binary64_pos [OF x] binary64_pos [OF y] True u_def [symmetric])
  next
    case False
    with le have "\<lfloor>log 2 x\<rfloor> + 1 \<le> \<lfloor>log 2 y\<rfloor>" by simp
    then have "(of_int \<lfloor>log 2 x\<rfloor> + 1 :: real) \<le> of_int \<lfloor>log 2 y\<rfloor>"
      by (metis of_int_1 of_int_add of_int_le_iff)
    then have "(2::real) powr (of_int \<lfloor>log 2 x\<rfloor> + 1) \<le> 2 powr of_int \<lfloor>log 2 y\<rfloor>"
      by (simp add: powr_mono)
    with binary64_binade(2) [OF x] binary64_binade(1) [OF y] show ?thesis by linarith
  qed
qed

lemma binary64_exact:
  assumes "2 powr of_int e \<le> x" and "x < 2 powr (of_int e + 1)"
    and "x / 2 powr (of_int e - 52) = of_int n"
  shows "binary64 x = x"
proof -
  have pos: "0 < x" using assms(1) powr_gt_zero [of 2 "of_int e"] by linarith
  have e: "\<lfloor>log 2 x\<rfloor> = e" by (rule binade_unique [OF assms(1,2)])
  have x: "of_int n * 2 powr (of_int e - 52) = x"
    using assms(3) by (simp add: field_simps)
  have "binary64 x = of_int (round_half_even (x / 2 powr (of_int e - 52))) *
      2 powr (of_int e - 52)"
    by (simp only: binary64_pos [OF pos] e)
  also have "\<dots> = of_int n * 2 powr (of_int e - 52)"
    by (simp only: assms(3) round_half_even_of_int)
  finally show ?thesis by (simp only: x)
qed

lemma binary64_error:
  assumes "0 \<le> x"
  shows "\<bar>binary64 x - x\<bar> \<le> x / 2 ^ 53"
proof (cases "x = 0")
  case True
  then show ?thesis by (simp add: binary64_0)
next
  case False
  with assms have x: "0 < x" by simp
  define e where "e = \<lfloor>log 2 x\<rfloor>"
  define u :: real where "u = 2 powr (of_int e - 52)"
  have u: "0 < u" by (simp add: u_def)
  have b: "binary64 x = of_int (round_half_even (x / u)) * u"
    using x by (simp add: binary64_pos e_def u_def)
  have "binary64 x - x = (of_int (round_half_even (x / u)) - x / u) * u"
    using u by (simp add: b field_simps)
  then have "\<bar>binary64 x - x\<bar> = \<bar>of_int (round_half_even (x / u)) - x / u\<bar> * u"
    using u by (simp add: abs_mult)
  also have "\<dots> \<le> (1 / 2) * u"
    using round_half_even_error [of "x / u"] u by (simp add: mult_right_mono)
  also have "\<dots> = 2 powr of_int e / 2 ^ 53"
    by (simp add: u_def powr_diff)
  also have "\<dots> \<le> x / 2 ^ 53"
    using binade(1) [OF x] by (simp add: e_def divide_right_mono)
  finally show ?thesis .
qed


lemma binary64_eval:
  assumes "2 powr of_int e \<le> x" and "x < 2 powr (of_int e + 1)"
    and "round_half_even (x / 2 powr (of_int e - 52)) = n"
  shows "binary64 x = of_int n * 2 powr (of_int e - 52)"
proof -
  have pos: "0 < x" using assms(1) powr_gt_zero [of 2 "of_int e"] by linarith
  have e: "\<lfloor>log 2 x\<rfloor> = e" by (rule binade_unique [OF assms(1,2)])
  show ?thesis by (simp only: binary64_pos [OF pos] e assms(3))
qed

lemma two_powr_int:
  "(2::real) powr of_int e = (if 0 \<le> e then 2 ^ nat e else 1 / 2 ^ nat (- e))"
  by (simp add: powr_real_of_int field_simps)

lemma binary64_1: "binary64 1 = 1"
  by (rule binary64_exact [of 0 _ "2 ^ 52"]) (simp_all add: powr_minus powr_numeral field_simps)

lemma binary64_100: "binary64 100 = 100"
proof (rule binary64_exact [of 6 _ "100 * 2 ^ 46"])
  show "2 powr real_of_int 6 \<le> (100::real)" by (simp add: two_powr_int)
  show "(100::real) < 2 powr (real_of_int 6 + 1)"
    using two_powr_int [of 7] by simp
  have p: "(2::real) powr (real_of_int 6 - 52) = 1 / 2 ^ 46"
    using two_powr_int [of "-46"] by simp
  show "(100::real) / 2 powr (real_of_int 6 - 52) = real_of_int (100 * 2 ^ 46)"
    unfolding p by simp
qed

lemma binary64_three_halves: "binary64 (3 / 2) = 3 / 2"
proof (rule binary64_exact [of 0 _ "3 * 2 ^ 51"])
  show "2 powr real_of_int 0 \<le> (3 / 2 ::real)" by simp
  show "(3 / 2 ::real) < 2 powr (real_of_int 0 + 1)" by simp
  have p: "(2::real) powr (real_of_int 0 - 52) = 1 / 2 ^ 52"
    using two_powr_int [of "-52"] by simp
  show "(3 / 2 ::real) / 2 powr (real_of_int 0 - 52) = real_of_int (3 * 2 ^ 51)"
    unfolding p by simp
qed

lemma binary64_150: "binary64 150 = 150"
proof (rule binary64_exact [of 7 _ "150 * 2 ^ 45"])
  show "2 powr real_of_int 7 \<le> (150::real)" by (simp add: two_powr_int)
  show "(150::real) < 2 powr (real_of_int 7 + 1)"
    using two_powr_int [of 8] by simp
  have p: "(2::real) powr (real_of_int 7 - 52) = 1 / 2 ^ 45"
    using two_powr_int [of "-45"] by simp
  show "(150::real) / 2 powr (real_of_int 7 - 52) = real_of_int (150 * 2 ^ 45)"
    unfolding p by simp
qed

lemma binary64_two_thirds: "binary64 (2 / 3) = 6004799503160661 / 2 ^ 53"
proof -
  have p: "(2::real) powr (real_of_int (- 1) - 52) = 1 / 2 ^ 53"
    using two_powr_int [of "-53"] by simp
  have "binary64 (2 / 3) = of_int 6004799503160661 * 2 powr (of_int (- 1) - 52)"
  proof (rule binary64_eval)
    show "2 powr real_of_int (- 1) \<le> (2 / 3 ::real)"
      using two_powr_int [of "-1"] by simp
    show "(2 / 3 ::real) < 2 powr (real_of_int (- 1) + 1)" by simp
    show "round_half_even (2 / 3 / 2 powr (real_of_int (- 1) - 52)) = 6004799503160661"
      unfolding p by (simp add: round_half_even_def Let_def)
  qed
  then show ?thesis unfolding p by simp
qed

lemma binary64_two_thirds_times_100:
  "binary64 (6004799503160661 / 2 ^ 53 * 100) = 4691249611844266 / 2 ^ 46"
proof -
  have p: "(2::real) powr (real_of_int 6 - 52) = 1 / 2 ^ 46"
    using two_powr_int [of "-46"] by simp
  have "binary64 (6004799503160661 / 2 ^ 53 * 100) =
      of_int 4691249611844266 * 2 powr (of_int 6 - 52)"
  proof (rule binary64_eval)
    show "2 powr real_of_int 6 \<le> (6004799503160661 / 2 ^ 53 * 100 ::real)"
      by (simp add: two_powr_int)
    show "(6004799503160661 / 2 ^ 53 * 100 ::real) < 2 powr (real_of_int 6 + 1)"
      using two_powr_int [of 7] by simp
    show "round_half_even (6004799503160661 / 2 ^ 53 * 100 / 2 powr (real_of_int 6 - 52)) =
        4691249611844266"
      unfolding p by (simp add: round_half_even_def Let_def)
  qed
  then show ?thesis unfolding p by simp
qed

lemma binary64_two_hundred_thirds: "binary64 (200 / 3) = 4691249611844267 / 2 ^ 46"
proof -
  have p: "(2::real) powr (real_of_int 6 - 52) = 1 / 2 ^ 46"
    using two_powr_int [of "-46"] by simp
  have "binary64 (200 / 3) = of_int 4691249611844267 * 2 powr (of_int 6 - 52)"
  proof (rule binary64_eval)
    show "2 powr real_of_int 6 \<le> (200 / 3 ::real)"
      by (simp add: two_powr_int)
    show "(200 / 3 ::real) < 2 powr (real_of_int 6 + 1)"
      using two_powr_int [of 7] by simp
    show "round_half_even (200 / 3 / 2 powr (real_of_int 6 - 52)) = 4691249611844267"
      unfolding p by (simp add: round_half_even_def Let_def)
  qed
  then show ?thesis unfolding p by simp
qed

section \<open>The acknowledgment rate\<close>

lemma acknowledgment_rate_eq:
  "acknowledgment_rate d b =
     (if total_recipients d b = 0 then 0
      else binary64 (binary64 (real (card (acknowledged_by b)) / real (total_recipients d b))
                       * 100))"
  by (simp add: acknowledgment_rate_def Let_def float_mul_def int_truediv_def)

lemma rate_bounds:
  assumes "0 \<le> x"
  shows "0 \<le> binary64 (binary64 x * 100)"
    and "x \<le> 1 \<Longrightarrow> binary64 (binary64 x * 100) \<le> 100"
    and "1 \<le> x \<Longrightarrow> 100 \<le> binary64 (binary64 x * 100)"
    and "\<bar>binary64 (binary64 x * 100) - 100 * x\<bar> \<le> 100 * x / 2 ^ 51"
proof -
  define y where "y = binary64 x"
  have y: "0 \<le> y" unfolding y_def by (rule binary64_nonneg [OF assms])
  then have y100: "0 \<le> y * 100" by simp
  show "0 \<le> binary64 (y * 100)" by (rule binary64_nonneg [OF y100])
  {
    assume "x \<le> 1"
    with binary64_mono [OF assms this] have "y \<le> 1" by (simp add: y_def binary64_1)
    then have "y * 100 \<le> 100" by simp
    from binary64_mono [OF y100 this] show "binary64 (y * 100) \<le> 100"
      by (simp add: binary64_100)
  }
  {
    assume "1 \<le> x"
    with binary64_mono [of 1 x] have "1 \<le> y" by (simp add: y_def binary64_1)
    then have "100 \<le> y * 100" by simp
    from binary64_mono [OF _ this] show "100 \<le> binary64 (y * 100)"
      by (simp add: binary64_100)
  }
  have e1: "\<bar>y - x\<bar> \<le> x / 2 ^ 53"
    unfolding y_def by (rule binary64_error [OF assms])
  have e2: "\<bar>binary64 (y * 100) - y * 100\<bar> \<le> y * 100 / 2 ^ 53"
    by (rule binary64_error [OF y100])
  from e1 have "y \<le> x + x / 2 ^ 53" by linarith
  also have "\<dots> \<le> 2 * x" using assms by simp
  finally have y2: "y \<le> 2 * x" .
  have "\<bar>binary64 (y * 100) - 100 * x\<bar> =
      \<bar>(binary64 (y * 100) - y * 100) + 100 * (y - x)\<bar>"
    by (simp add: algebra_simps)
  also have "\<dots> \<le> \<bar>binary64 (y * 100) - y * 100\<bar> + \<bar>100 * (y - x)\<bar>"
    by (rule abs_triangle_ineq)
  also have "\<dots> = \<bar>binary64 (y * 100) - y * 100\<bar> + 100 * \<bar>y - x\<bar>"
    by (simp only: abs_mult abs_numeral)
  also have "\<dots> \<le> y * 100 / 2 ^ 53 + 100 * (x / 2 ^ 53)"
    using e1 e2 by simp
  also have "\<dots> \<le> 2 * x * 100 / 2 ^ 53 + 100 * (x / 2 ^ 53)"
    using y2 by (simp add: divide_right_mono)
  also have "\<dots> \<le> 100 * x / 2 ^ 51"
    using assms by simp
  finally show "\<bar>binary64 (y * 100) - 100 * x\<bar> \<le> 100 * x / 2 ^ 51" .
qed

text \<open>
  C4, as the code has it. The rate is 0 when there is no recipient. Otherwise it is the
  float \<^verbatim>\<open>(acknowledged_count / total_recipients) * 100\<close>, not clamped: it is never
  negative, it is at most 100 when no more users have acknowledged than there are
  recipients and at least 100 when at least as many have, and it differs from the
  exact value of 100 times the one count over the other by the rounding of the two
  operations only, a relative error of at most \<^verbatim>\<open>2^(-51)\<close>.
\<close>

theorem acknowledgment_rate_unclamped:
  "(total_recipients d b = 0 \<longrightarrow> acknowledgment_rate d b = 0) \<and>
   (total_recipients d b \<noteq> 0 \<longrightarrow>
      acknowledgment_rate d b =
        float_mul (int_truediv (card (acknowledged_by b)) (total_recipients d b)) 100) \<and>
   0 \<le> acknowledgment_rate d b \<and>
   (card (acknowledged_by b) \<le> total_recipients d b \<longrightarrow> acknowledgment_rate d b \<le> 100) \<and>
   (total_recipients d b \<noteq> 0 \<and> total_recipients d b \<le> card (acknowledged_by b) \<longrightarrow>
      100 \<le> acknowledgment_rate d b) \<and>
   (total_recipients d b \<noteq> 0 \<longrightarrow>
      \<bar>acknowledgment_rate d b -
         100 * real (card (acknowledged_by b)) / real (total_recipients d b)\<bar>
        \<le> 100 * real (card (acknowledged_by b)) / real (total_recipients d b) / 2 ^ 51)"
proof (cases "total_recipients d b = 0")
  case True
  then show ?thesis by (simp add: acknowledgment_rate_eq)
next
  case False
  define x where "x = real (card (acknowledged_by b)) / real (total_recipients d b)"
  have x: "0 \<le> x" by (simp add: x_def)
  have r: "acknowledgment_rate d b = binary64 (binary64 x * 100)"
    using False by (simp add: acknowledgment_rate_eq x_def)
  have le: "card (acknowledged_by b) \<le> total_recipients d b \<Longrightarrow> x \<le> 1"
    using False by (simp add: x_def)
  have ge: "total_recipients d b \<le> card (acknowledged_by b) \<Longrightarrow> 1 \<le> x"
    using False by (simp add: x_def)
  have err: "\<bar>binary64 (binary64 x * 100) - 100 * x\<bar> \<le> 100 * x / 2 ^ 51"
    by (rule rate_bounds(4) [OF x])
  show ?thesis
  proof (intro conjI impI)
    show "acknowledgment_rate d b = 0" if "total_recipients d b = 0"
      using that False by simp
    show "acknowledgment_rate d b =
        float_mul (int_truediv (card (acknowledged_by b)) (total_recipients d b)) 100"
      using False by (simp add: acknowledgment_rate_def Let_def)
    show "0 \<le> acknowledgment_rate d b"
      unfolding r by (rule rate_bounds(1) [OF x])
    show "acknowledgment_rate d b \<le> 100"
      if "card (acknowledged_by b) \<le> total_recipients d b"
      unfolding r by (rule rate_bounds(2) [OF x le [OF that]])
    show "100 \<le> acknowledgment_rate d b"
      if "total_recipients d b \<noteq> 0 \<and> total_recipients d b \<le> card (acknowledged_by b)"
      unfolding r using that by (intro rate_bounds(3) [OF x] ge) simp
    show "\<bar>acknowledgment_rate d b -
         100 * real (card (acknowledged_by b)) / real (total_recipients d b)\<bar>
        \<le> 100 * real (card (acknowledged_by b)) / real (total_recipients d b) / 2 ^ 51"
      using err by (simp add: r x_def)
  qed
qed

text \<open>
  Two of three recipients have acknowledged: the rate is at most 100. It is the float
  printed as 66.66666666666666, one unit in the last place below the float nearest to
  two thirds of 100.
\<close>

theorem acknowledgment_rate_unclamped_witness:
  "total_recipients memo_db circular = 3 \<and> card (acknowledged_by circular) = 2 \<and>
   acknowledgment_rate memo_db circular \<le> 100 \<and>
   acknowledgment_rate memo_db circular = 4691249611844266 / 2 ^ 46 \<and>
   binary64 (200 / 3) = 4691249611844267 / 2 ^ 46"
proof -
  have t: "total_recipients memo_db circular = 3"
    by (simp add: total_recipients_def circular_def memo_def)
  have c: "card (acknowledged_by circular) = 2"
    by (simp add: circular_def)
  from acknowledgment_rate_unclamped [of memo_db circular] t c
  have le: "acknowledgment_rate memo_db circular \<le> 100" by simp
  have "acknowledgment_rate memo_db circular = binary64 (binary64 (2 / 3) * 100)"
    by (simp add: acknowledgment_rate_eq t c)
  also have "\<dots> = binary64 (6004799503160661 / 2 ^ 53 * 100)"
    by (simp only: binary64_two_thirds)
  also have "\<dots> = 4691249611844266 / 2 ^ 46"
    by (rule binary64_two_thirds_times_100)
  finally have v: "acknowledgment_rate memo_db circular = 4691249611844266 / 2 ^ 46" .
  from t c le v binary64_two_hundred_thirds show ?thesis by simp
qed

text \<open>
  C4 as stated fails: alice, dave and erin have acknowledged the notice, and dave and
  erin have been deactivated since, so there are two recipients, carol and alice, and
  the rate is 150, above 100.
\<close>

theorem acknowledgment_rate_above_100_counterexample:
  "total_recipients lapsed_db lapsed_notice = 2 \<and>
   card (acknowledged_by lapsed_notice) = 3 \<and>
   acknowledgment_rate lapsed_db lapsed_notice = 150 \<and>
   claimed_acknowledgment_rate lapsed_db lapsed_notice = 100"
proof -
  have t: "total_recipients lapsed_db lapsed_notice = 2"
    by (simp add: total_recipients_def lapsed_db_def lapsed_notice_def notice_def carol_def
        alice_def dave_def erin_def)
  have c: "card (acknowledged_by lapsed_notice) = 3"
    by (simp add: lapsed_notice_def)
  have r: "acknowledgment_rate lapsed_db lapsed_notice = 150"
    by (simp add: acknowledgment_rate_eq t c binary64_three_halves binary64_150)
  have m: "claimed_acknowledgment_rate lapsed_db lapsed_notice = 100"
    by (simp add: claimed_acknowledgment_rate_def t c)
  from t c r m show ?thesis by simp
qed

section \<open>The daily views of the analytics\<close>

lemma daily_views_loop_eq:
  "daily_views_loop d pk current_date end_day daily_views =
     daily_views @
       map (\<lambda>day. \<lparr>entry_date = day, entry_count = views_count d pk day\<rparr>)
         [current_date..end_day]"
proof (induction d pk current_date end_day daily_views rule: daily_views_loop.induct)
  case (1 d pk current_date end_day daily_views)
  show ?case
  proof (cases "current_date \<le> end_day")
    case True
    then have "[current_date..end_day] = current_date # [current_date + 1..end_day]"
      by (simp add: upto_rec1)
    with True "1.IH" show ?thesis
      by (subst daily_views_loop.simps) simp
  next
    case False
    then show ?thesis by (subst daily_views_loop.simps) simp
  qed
qed

lemma analytics_daily_views:
  assumes "analytics now req pk d = (HTTP_200_OK, Some a)"
  shows "data_daily_views a =
     map (\<lambda>day. \<lparr>entry_date = day, entry_count = views_count d pk day\<rparr>)
       [date_of now - 30..date_of now]"
  using assms
  by (auto simp add: analytics_def Let_def daily_views_loop_eq split: option.splits if_splits)

text \<open>
  C5. The \<^verbatim>\<open>daily_views\<close> of an accepted analytics request has one entry for each day
  from 30 days before today to today, both included, in this order, each with the
  number of \<^verbatim>\<open>BroadcastView\<close> rows of the broadcast whose \<^verbatim>\<open>viewed_at\<close> falls on that
  day, zero included. That is 31 entries, one more than the 30 of the claim: the loop
  starts at \<open>today - 30\<close> and runs while \<^verbatim>\<open>current_date <= end_date\<close>.
\<close>

theorem daily_views_has_31_entries:
  assumes "analytics now req pk d = (HTTP_200_OK, Some a)"
  shows "length (data_daily_views a) = 31 \<and>
         map entry_date (data_daily_views a) = [date_of now - 30..date_of now] \<and>
         map entry_count (data_daily_views a) =
           map (\<lambda>day. length (filter (\<lambda>v. view_broadcast v = pk \<and> date_of (viewed_at v) = day)
                                  (broadcast_views d)))
             [date_of now - 30..date_of now]"
  by (simp add: analytics_daily_views [OF assms] comp_def views_count_def)

text \<open>
  The analytics of the memo on day 41, for an administrator: 31 entries, from day 11
  with two views to day 41 with none.
\<close>

theorem daily_views_has_31_entries_witness:
  "fst (analytics (41, 0) (as_user admin) 4 viewed_db) = HTTP_200_OK \<and>
   (\<exists>a. snd (analytics (41, 0) (as_user admin) 4 viewed_db) = Some a \<and>
        length (data_daily_views a) = 31 \<and>
        hd (data_daily_views a) = \<lparr>entry_date = 11, entry_count = 2\<rparr> \<and>
        last (data_daily_views a) = \<lparr>entry_date = 41, entry_count = 0\<rparr>)"
proof -
  have 1: "req_user (as_user admin) = Some admin" by (simp add: as_user_def)
  have 2: "get_broadcast_or_404 viewed_db admin 4 = Some (memo\<lparr>viewed_by := {1, 9}\<rparr>)"
    by (simp add: get_broadcast_or_404_def viewed_db_def memo_db_def
        BroadcastViewSet_get_queryset_def admin_def memo_def)
  obtain a where a: "analytics (41, 0) (as_user admin) 4 viewed_db = (HTTP_200_OK, Some a)"
    by (simp add: analytics_def 1 2 IsAdminOrReadOnly_has_object_permission_def safe_method_def
        Let_def)
  note t = daily_views_has_31_entries [OF a]
  have dv: "data_daily_views a =
      map (\<lambda>day. \<lparr>entry_date = day, entry_count = views_count viewed_db 4 day\<rparr>) [11..41]"
    using analytics_daily_views [OF a] by (simp add: date_of_def)
  have first: "[11..41] = 11 # [12..41]" by (simp add: upto_rec1)
  have final: "[11..41] = [11..40] @ [41]" by (simp add: upto_rec2)
  have c11: "views_count viewed_db 4 11 = 2"
    by (simp add: views_count_def viewed_db_def date_of_def)
  have c41: "views_count viewed_db 4 41 = 0"
    by (simp add: views_count_def viewed_db_def date_of_def)
  have h: "hd (data_daily_views a) = \<lparr>entry_date = 11, entry_count = 2\<rparr>"
    unfolding dv first by (simp add: c11)
  have l: "last (data_daily_views a) = \<lparr>entry_date = 41, entry_count = 0\<rparr>"
    unfolding dv final by (simp add: c41)
  from t h l a show ?thesis by simp
qed

end
